theory Spec2Isabelle
  imports Complex_Main "HOL-Library.Sublist"
begin

section \<open>Data model of the verifier (backend/email\_verifier.py)\<close>

text \<open>
  The dictionaries that the verification stages pass to each other become records.
  Python strings are \<open>string\<close>; \<open>None\<close> in a slot is \<open>option\<close>. Several of the
  source dictionaries have a key \<open>skipped\<close> or \<open>error\<close>; record fields share one name
  space, so those of the catch-all, deliverability and MX dictionaries carry a prefix.
\<close>

record smtp_result =
  accepted :: bool
  rejected :: bool
  error :: "string option"
  mx_used :: "string option"
  skipped :: bool

record catch_all =
  is_catchall :: bool
  test_email :: "string option"
  ca_skipped :: bool

record mx_check =
  valid :: bool
  mx_hosts :: "string list"
  mx_details :: "(int \<times> string) list"
  mx_error :: "string option"

record deliverability =
  spf :: bool
  dkim :: bool
  dmarc :: bool
  spf_record :: "string option"
  dmarc_record :: "string option"
  dl_skipped :: bool

section \<open>Confidence fusion (EmailVerifier.calculate\_confidence)\<close>

text \<open>
  Confidence values are exact rationals. The source computes them in binary floating
  point and ends with \<open>round(confidence, 2)\<close>; every value the function can reach before
  rounding is a multiple of \<open>1/20\<close> (lemma \<open>raw_confidence_grid\<close> below), so the rational
  rounding is the identity there and the double the source returns is the one nearest to
  the rational result.

  \<open>round2\<close> is Python's \<open>round(x, 2)\<close>: to the nearest hundredth, a tie going to the even
  neighbour.
\<close>

definition round2 :: "rat \<Rightarrow> rat" where
  "round2 x =
     (let y = x * 100; n = \<lfloor>y\<rfloor>; r = y - of_int n
      in of_int (if r < 1 / 2 then n
                 else if 1 / 2 < r then n + 1
                 else if even n then n else n + 1) / 100)"

text \<open>\<open>sum([spf, dkim, dmarc])\<close>: Python adds the booleans as 0 and 1.\<close>

definition security_count :: "deliverability \<Rightarrow> nat" where
  "security_count d =
     (if spf d then 1 else 0) + (if dkim d then 1 else 0) + (if dmarc d then 1 else 0)"

text \<open>
  The body of \<open>calculate_confidence\<close> up to the final rounding, for a probe that was not
  rejected: the four weights, then the three adjustments of aggressive mode in the
  source's order.
\<close>

definition raw_confidence ::
  "smtp_result \<Rightarrow> catch_all \<Rightarrow> mx_check \<Rightarrow> deliverability \<Rightarrow> string \<Rightarrow> rat" where
  "raw_confidence smtp ca mx d confidence_mode =
     (let c0 = (if accepted smtp then 60 / 100 else 0);
          c1 = (if valid mx then c0 + 10 / 100 else c0);
          c2 = (if \<not> is_catchall ca then c1 + 15 / 100 else c1);
          c3 = c2 + (of_nat (security_count d) / 3) * (15 / 100)
      in if confidence_mode = ''aggressive'' then
           (let domain_secure = (spf d \<or> dmarc d);
                a1 = (if \<not> accepted smtp \<and> valid mx \<and> domain_secure
                      then max c3 (65 / 100) else c3);
                a2 = (if skipped smtp \<and> valid mx then max a1 (60 / 100) else a1);
                a3 = (if \<not> is_catchall ca \<and> valid mx
                      then min (a2 + 1 / 10) (95 / 100) else a2)
            in a3)
         else c3)"

definition calculate_confidence ::
  "smtp_result \<Rightarrow> catch_all \<Rightarrow> mx_check \<Rightarrow> deliverability \<Rightarrow> string \<Rightarrow> rat" where
  "calculate_confidence smtp ca mx d confidence_mode =
     (if \<not> accepted smtp \<and> rejected smtp then 0
      else round2 (raw_confidence smtp ca mx d confidence_mode))"

section \<open>Python string operations\<close>

text \<open>
  A Python \<open>str\<close> is modelled as a \<open>string\<close> whose characters are the code points below
  256. \<open>lower_char\<close> is \<open>str.lower\<close> on one such character: the ASCII capitals and the
  Latin-1 capitals (192 to 222 without the multiplication sign 215) move up by 32.
\<close>

definition lower_char :: "char \<Rightarrow> char" where
  "lower_char c =
     (let n = (of_char c :: nat)
      in if (65 \<le> n \<and> n \<le> 90) \<or> (192 \<le> n \<and> n \<le> 222 \<and> n \<noteq> 215)
         then char_of (n + 32) else c)"

definition lower :: "string \<Rightarrow> string" where
  "lower s = map lower_char s"

text \<open>\<open>str.isspace\<close> on one character below 256, which is what \<open>str.strip()\<close> removes.\<close>

definition is_space :: "char \<Rightarrow> bool" where
  "is_space c =
     (let n = (of_char c :: nat)
      in (9 \<le> n \<and> n \<le> 13) \<or> (28 \<le> n \<and> n \<le> 32) \<or> n = 133 \<or> n = 160)"

definition rstrip_chars :: "(char \<Rightarrow> bool) \<Rightarrow> string \<Rightarrow> string" where
  "rstrip_chars P s = rev (dropWhile P (rev s))"

definition strip :: "string \<Rightarrow> string" where
  "strip s = rstrip_chars is_space (dropWhile is_space s)"

text \<open>\<open>needle in haystack\<close> for strings: a contiguous occurrence.\<close>

fun contains :: "string \<Rightarrow> string \<Rightarrow> bool" where
  "contains needle [] = (needle = [])"
| "contains needle (c # cs) = (prefix needle (c # cs) \<or> contains needle cs)"

text \<open>\<open>s.split('@', 1)\<close> for a string that has an \<open>@\<close>: the text before the first one and
  the text after it.\<close>

definition split_at :: "string \<Rightarrow> string \<times> string" where
  "split_at s = (takeWhile (\<lambda>c. c \<noteq> CHR ''@'') s, drop 1 (dropWhile (\<lambda>c. c \<noteq> CHR ''@'') s))"

text \<open>\<open>str(n)\<close> for an integer: decimal digits, a minus sign when negative.\<close>

function str_nat :: "nat \<Rightarrow> string" where
  "str_nat n = (if n < 10 then [char_of (48 + n)] else str_nat (n div 10) @ [char_of (48 + n mod 10)])"
  by pat_completeness auto
termination
  by (relation "measure id") auto

definition str_int :: "int \<Rightarrow> string" where
  "str_int i = (if i < 0 then CHR ''-'' # str_nat (nat (- i)) else str_nat (nat i))"

section \<open>The outside world of the verifier\<close>

text \<open>
  DNS, SMTP servers, the clock, the random generator and the reputation lookups are
  not part of the program. They are oracles of a record \<open>world\<close>; each oracle takes the
  number of external operations performed so far (the length of the trace of the state
  below), so that the same question may get a different answer each time it is asked.

  An SMTP session with one host is the script of what each call of \<open>smtplib\<close> does in
  it: raise (\<open>Some e\<close>, \<open>Inl e\<close>) or complete, with the reply code where there is one.
  The exception classes are the ones the source has handlers for; each carries its
  \<open>str(e)\<close>.
\<close>

datatype smtp_exn =
    SMTPServerDisconnected string
  | SocketTimeout string
  | SocketGaierror string
  | OtherException string

record smtp_session =
  create_r :: "smtp_exn option"
  connect_r :: "smtp_exn option"
  ehlo_r :: "smtp_exn + int"
  helo_r :: "smtp_exn option"
  mail_r :: "smtp_exn + int"
  rcpt_r :: "smtp_exn + (int \<times> string)"
  quit_r :: "smtp_exn option"

datatype dns_exn = NXDOMAIN | NoAnswer | DnsOther string

datatype event =
    DnsQuery string string
  | SmtpOpen string
  | CacheGet string string
  | CacheSet string string
  | ClockRead
  | RandomChoices
  | InternetCheck string

record world =
  resolve_a :: "nat \<Rightarrow> string \<Rightarrow> dns_exn option"
  resolve_mx :: "nat \<Rightarrow> string \<Rightarrow> dns_exn + (int \<times> string) list"
  resolve_txt :: "nat \<Rightarrow> string \<Rightarrow> dns_exn + string list"
  smtp :: "nat \<Rightarrow> string \<Rightarrow> string \<Rightarrow> string \<Rightarrow> smtp_session"
  clock :: "nat \<Rightarrow> rat"
  random_choices :: "nat \<Rightarrow> string"
  internet_presence :: "nat \<Rightarrow> string \<Rightarrow> bool \<Rightarrow> string + string"

text \<open>
  The fields of an \<open>EmailVerifier\<close> that \<open>__init__\<close> fixes or reads from the environment,
  and its mutable part: the two caches (a value with its expiry time under each domain)
  and the trace of external operations.
\<close>

record config =
  cache_ttl :: rat
  enable_internet_checks :: bool
  hibp_enabled :: bool
  sender_domain :: string

record vstate =
  mx_cache :: "string \<rightharpoonup> (mx_check \<times> rat)"
  deliverability_cache :: "string \<rightharpoonup> (deliverability \<times> rat)"
  trace :: "event list"

definition emit :: "event \<Rightarrow> vstate \<Rightarrow> vstate" where
  "emit e st = st\<lparr>trace := trace st @ [e]\<rparr>"

definition smtp_blocked_domains :: "string list" where
  "smtp_blocked_domains =
     [''outlook.com'', ''hotmail.com'', ''live.com'', ''msn.com'',
      ''gmail.com'', ''googlemail.com'', ''yahoo.com'', ''yahoo.co.uk'',
      ''aol.com'', ''icloud.com'', ''me.com'', ''mac.com'',
      ''microsoft.com'', ''office365.com'']"

definition transactional_patterns :: "string list" where
  "transactional_patterns =
     [''inbound-smtp'', ''amazonaws.com'', ''sendgrid.net'', ''mailgun.org'',
      ''mailgun.com'', ''sparkpostmail.com'', ''postmarkapp.com'', ''mandrillapp.com'']"

section \<open>The SMTP probe (EmailVerifier.smtp\_handshake)\<close>

text \<open>What one turn of the host loop ends with: \<open>return result\<close> or \<open>continue\<close>.\<close>

datatype flow = Return smtp_result | Continue smtp_result

text \<open>The \<open>if/elif\<close> chain on the reply code of \<open>RCPT TO\<close>.\<close>

definition interpret_response :: "int \<Rightarrow> string \<Rightarrow> string \<Rightarrow> smtp_result \<Rightarrow> flow" where
  "interpret_response code message mx_host result =
     (if code \<in> {250, 251} then
        Return (result\<lparr>accepted := True, mx_used := Some mx_host\<rparr>)
      else if code \<in> {550, 553} then
        Return (result\<lparr>rejected := True, error := Some ''Mailbox does not exist'',
                       mx_used := Some mx_host\<rparr>)
      else if code \<in> {450, 451} then
        Continue (result\<lparr>error := Some ''Temporarily unavailable (greylisted)'',
                         mx_used := Some mx_host\<rparr>)
      else if code = 421 then
        Continue (result\<lparr>error := Some ''Service unavailable''\<rparr>)
      else if 500 \<le> code \<and> code < 600 then
        Return (result\<lparr>rejected := True,
                       error := Some (''Permanent SMTP error: '' @ str_int code),
                       mx_used := Some mx_host\<rparr>)
      else
        Continue (result\<lparr>error := Some (''Unexpected response: '' @ str_int code @ '' '' @ message)\<rparr>))"

text \<open>
  The body of the inner \<open>try\<close>: connect, EHLO (HELO when the reply is not 250),
  MAIL FROM, RCPT TO, QUIT, and only then the interpretation of the RCPT reply.
  \<open>Inl e\<close> is the exception that leaves the body.
\<close>

definition session_body :: "smtp_session \<Rightarrow> string \<Rightarrow> smtp_result \<Rightarrow> smtp_exn + flow" where
  "session_body s mx_host result =
     (case connect_r s of Some e \<Rightarrow> Inl e | None \<Rightarrow>
      (case ehlo_r s of Inl e \<Rightarrow> Inl e | Inr code \<Rightarrow>
       (case (if code \<noteq> 250 then helo_r s else None) of Some e \<Rightarrow> Inl e | None \<Rightarrow>
        (case mail_r s of Inl e \<Rightarrow> Inl e | Inr mcode \<Rightarrow>
         if mcode \<notin> {250, 251} then
           (case quit_r s of Some e \<Rightarrow> Inl e | None \<Rightarrow> Inr (Continue result))
         else
           (case rcpt_r s of Inl e \<Rightarrow> Inl e | Inr (rcode, message) \<Rightarrow>
            (case quit_r s of Some e \<Rightarrow> Inl e | None \<Rightarrow>
             Inr (interpret_response rcode message mx_host result)))))))"

text \<open>The three handlers of the inner \<open>try\<close>; every one of them continues.\<close>

fun inner_except :: "smtp_exn \<Rightarrow> smtp_result \<Rightarrow> smtp_result" where
  "inner_except (SMTPServerDisconnected m) result = result"
| "inner_except (SocketTimeout m) result = result\<lparr>error := Some ''Connection timeout''\<rparr>"
| "inner_except (SocketGaierror m) result = result\<lparr>error := Some (''SMTP error: '' @ m)\<rparr>"
| "inner_except (OtherException m) result = result\<lparr>error := Some (''SMTP error: '' @ m)\<rparr>"

text \<open>The three handlers of the outer \<open>try\<close>, which only the creation of the
  \<open>smtplib.SMTP\<close> object can reach.\<close>

fun outer_except :: "smtp_exn \<Rightarrow> smtp_result \<Rightarrow> smtp_result" where
  "outer_except (SocketGaierror m) result = result"
| "outer_except (SocketTimeout m) result = result"
| "outer_except (SMTPServerDisconnected m) result = result\<lparr>error := Some (''Connection error: '' @ m)\<rparr>"
| "outer_except (OtherException m) result = result\<lparr>error := Some (''Connection error: '' @ m)\<rparr>"

definition try_host :: "smtp_session \<Rightarrow> string \<Rightarrow> smtp_result \<Rightarrow> flow" where
  "try_host s mx_host result =
     (case create_r s of
        Some e \<Rightarrow> Continue (outer_except e result)
      | None \<Rightarrow>
         (case session_body s mx_host result of
            Inl e \<Rightarrow> Continue (inner_except e result)
          | Inr f \<Rightarrow> f))"

text \<open>The \<open>for mx_host in mx_hosts[:2]\<close> loop, given the hosts it runs over.\<close>

fun host_loop ::
  "world \<Rightarrow> config \<Rightarrow> string \<Rightarrow> string list \<Rightarrow> smtp_result \<Rightarrow> vstate \<Rightarrow> flow \<times> vstate" where
  "host_loop w cfg email [] result st = (Continue result, st)"
| "host_loop w cfg email (mx_host # rest) result st =
     (let s = smtp w (length (trace st)) mx_host (''verify@'' @ sender_domain cfg) email;
          st' = emit (SmtpOpen mx_host) st
      in case try_host s mx_host result of
           Return r \<Rightarrow> (Return r, st')
         | Continue r \<Rightarrow> host_loop w cfg email rest r st')"

definition smtp_handshake ::
  "world \<Rightarrow> config \<Rightarrow> string \<Rightarrow> string \<Rightarrow> string list \<Rightarrow> vstate \<Rightarrow> smtp_result \<times> vstate" where
  "smtp_handshake w cfg email domain hosts st =
     (let result = \<lparr>accepted = False, rejected = False, error = None, mx_used = None,
                    skipped = False\<rparr>;
          domain_lower = lower domain
      in if list_ex (\<lambda>blocked. contains blocked domain_lower
                              \<or> suffix (''.'' @ blocked) domain_lower) smtp_blocked_domains then
           (result\<lparr>skipped := True,
                   error := Some ''SMTP check skipped (domain typically blocks verification)''\<rparr>, st)
         else if list_ex (\<lambda>mx_host. list_ex (\<lambda>pattern. contains pattern (lower mx_host))
                                       transactional_patterns) (take 2 hosts) then
           (result\<lparr>skipped := True,
                   error := Some ''SMTP check skipped (transactional email service - does not support mailbox verification)''\<rparr>, st)
         else
           (case host_loop w cfg email (take 2 hosts) result st of
              (Return r, st') \<Rightarrow> (r, st')
            | (Continue r, st') \<Rightarrow>
                (if error r = None \<or> error r = Some []
                 then (r\<lparr>error := Some ''Could not connect to any MX server''\<rparr>, st')
                 else (r, st'))))"

section \<open>The lookup caches\<close>

text \<open>
  \<open>_get_cached\<close> and \<open>_set_cache\<close> work on either cache dictionary; the model takes the
  dictionary and returns it updated, and the caller stores it back in its field of the
  state. The first argument names the cache in the trace.
\<close>

definition get_cached ::
  "world \<Rightarrow> string \<Rightarrow> (string \<rightharpoonup> ('v \<times> rat)) \<Rightarrow> string \<Rightarrow> vstate
     \<Rightarrow> 'v option \<times> (string \<rightharpoonup> ('v \<times> rat)) \<times> vstate" where
  "get_cached w name cache key st =
     (let st1 = emit (CacheGet name key) st
      in case cache key of
           None \<Rightarrow> (None, cache, st1)
         | Some (v, expires_at) \<Rightarrow>
             (let now = clock w (length (trace st1)); st2 = emit ClockRead st1
              in if expires_at > now then (Some v, cache, st2)
                 else (None, cache(key := None), st2)))"

definition set_cache ::
  "world \<Rightarrow> config \<Rightarrow> string \<Rightarrow> (string \<rightharpoonup> ('v \<times> rat)) \<Rightarrow> string \<Rightarrow> 'v \<Rightarrow> vstate
     \<Rightarrow> (string \<rightharpoonup> ('v \<times> rat)) \<times> vstate" where
  "set_cache w cfg name cache key v st =
     (let now = clock w (length (trace st)); st1 = emit ClockRead st
      in (cache(key \<mapsto> (v, now + cache_ttl cfg)), emit (CacheSet name key) st1))"

section \<open>DNS stages (check\_mx\_records, check\_deliverability)\<close>

text \<open>
  The resolver object is taken to exist: \<open>dns.resolver.Resolver()\<close> does not raise. Every
  \<open>resolver.resolve\<close> is one \<open>DnsQuery\<close> event and one question to the world.
\<close>

definition check_mx_records :: "world \<Rightarrow> string \<Rightarrow> vstate \<Rightarrow> mx_check \<times> vstate" where
  "check_mx_records w domain st =
     (let st1 = emit (DnsQuery domain ''A'') st;
          answer = resolve_mx w (length (trace st1)) domain;
          st2 = emit (DnsQuery domain ''MX'') st1
      in case answer of
           Inr mx_records \<Rightarrow>
             (let hosts = sort_key fst
                            (map (\<lambda>(preference, exchange).
                                    (preference, rstrip_chars (\<lambda>c. c = CHR ''.'') exchange))
                                 mx_records)
              in (\<lparr>valid = True, mx_hosts = map snd hosts, mx_details = hosts,
                   mx_error = None\<rparr>, st2))
         | Inl NXDOMAIN \<Rightarrow>
             (\<lparr>valid = False, mx_hosts = [], mx_details = [],
               mx_error = Some ''Domain does not exist''\<rparr>, st2)
         | Inl NoAnswer \<Rightarrow>
             (let fallback = resolve_a w (length (trace st2)) domain;
                  st3 = emit (DnsQuery domain ''A'') st2
              in case fallback of
                   None \<Rightarrow> (\<lparr>valid = True, mx_hosts = [domain], mx_details = [(0, domain)],
                              mx_error = None\<rparr>, st3)
                 | Some e \<Rightarrow> (\<lparr>valid = False, mx_hosts = [], mx_details = [],
                                mx_error = Some ''No MX records found''\<rparr>, st3))
         | Inl (DnsOther m) \<Rightarrow>
             (\<lparr>valid = False, mx_hosts = [], mx_details = [],
               mx_error = Some (''DNS lookup failed: '' @ m)\<rparr>, st2))"

text \<open>The loop over the TXT records of one answer: the flag, and the last record that
  starts with the marker.\<close>

definition txt_marker :: "string \<Rightarrow> (dns_exn + string list) \<Rightarrow> bool \<times> string option" where
  "txt_marker marker answer =
     (case answer of
        Inl e \<Rightarrow> (False, None)
      | Inr records \<Rightarrow>
          (let hits = filter (prefix marker) records
           in if hits = [] then (False, None) else (True, Some (last hits))))"

definition common_selectors :: "string list" where
  "common_selectors = [''default'', ''google'', ''selector1'', ''selector2'', ''k1'', ''mail'']"

fun dkim_loop :: "world \<Rightarrow> string \<Rightarrow> string list \<Rightarrow> vstate \<Rightarrow> bool \<times> vstate" where
  "dkim_loop w domain [] st = (False, st)"
| "dkim_loop w domain (selector # rest) st =
     (let dkim_domain = selector @ ''._domainkey.'' @ domain;
          answer = resolve_txt w (length (trace st)) dkim_domain;
          st' = emit (DnsQuery dkim_domain ''TXT'') st
      in case answer of Inr records \<Rightarrow> (True, st') | Inl e \<Rightarrow> dkim_loop w domain rest st')"

definition check_deliverability :: "world \<Rightarrow> string \<Rightarrow> vstate \<Rightarrow> deliverability \<times> vstate" where
  "check_deliverability w domain st =
     (let spf_answer = resolve_txt w (length (trace st)) domain;
          st1 = emit (DnsQuery domain ''TXT'') st;
          dmarc_domain = ''_dmarc.'' @ domain;
          dmarc_answer = resolve_txt w (length (trace st1)) dmarc_domain;
          st2 = emit (DnsQuery dmarc_domain ''TXT'') st1;
          (has_dkim, st3) = dkim_loop w domain common_selectors st2
      in (\<lparr>spf = fst (txt_marker ''v=spf1'' spf_answer), dkim = has_dkim,
           dmarc = fst (txt_marker ''v=DMARC1'' dmarc_answer),
           spf_record = snd (txt_marker ''v=spf1'' spf_answer),
           dmarc_record = snd (txt_marker ''v=DMARC1'' dmarc_answer),
           dl_skipped = False\<rparr>, st3))"

section \<open>Catch-all detection (detect\_catch\_all)\<close>

definition detect_catch_all ::
  "world \<Rightarrow> config \<Rightarrow> string \<Rightarrow> string list \<Rightarrow> vstate \<Rightarrow> catch_all \<times> vstate" where
  "detect_catch_all w cfg domain hosts st =
     (let random_string = random_choices w (length (trace st));
          st1 = emit RandomChoices st;
          probe = random_string @ ''@'' @ domain;
          (smtp_res, st2) = smtp_handshake w cfg probe domain hosts st1
      in (\<lparr>is_catchall = accepted smtp_res, test_email = Some probe, ca_skipped = False\<rparr>, st2))"

section \<open>The orchestrator (EmailVerifier.verify\_email)\<close>

record details =
  d_mx_check :: "mx_check option"
  d_smtp_check :: "smtp_result option"
  d_deliverability :: "deliverability option"
  d_catch_all :: "catch_all option"
  d_internet_check :: "(string + string) option"

definition empty_details :: details where
  "empty_details = \<lparr>d_mx_check = None, d_smtp_check = None, d_deliverability = None,
                     d_catch_all = None, d_internet_check = None\<rparr>"

record verification =
  email :: string
  status :: string
  confidence :: rat
  reason :: string
  details :: details

text \<open>The per-domain override table. The source ships it empty.\<close>

record override =
  min_confidence :: "rat option"
  force_status :: "string option"

definition DOMAIN_CONFIDENCE_OVERRIDES :: "string \<rightharpoonup> override" where
  "DOMAIN_CONFIDENCE_OVERRIDES = Map.empty"

text \<open>The \<open>if/elif\<close> chain that derives the status, with \<open>result["confidence"]\<close> already
  set to the fused confidence.\<close>

definition determine_status ::
  "smtp_result \<Rightarrow> catch_all \<Rightarrow> mx_check \<Rightarrow> deliverability \<Rightarrow> rat \<Rightarrow> verification
     \<Rightarrow> verification" where
  "determine_status smtp_res ca mx d conf result =
     (if skipped smtp_res then
        (if valid mx \<and> (spf d \<or> dmarc d) then
           result\<lparr>status := ''likely_valid'',
                  reason := ''Domain exists with valid MX and security records (SMTP check blocked by provider)'',
                  confidence := min (75 / 100) (conf + 15 / 100)\<rparr>
         else
           result\<lparr>status := ''unknown'',
                  reason := ''Could not complete full verification (SMTP blocked)''\<rparr>)
      else if accepted smtp_res then
        (if is_catchall ca then
           result\<lparr>status := ''catch-all'',
                  reason := ''Email accepted but domain uses catch-all''\<rparr>
         else
           result\<lparr>status := ''valid'', reason := ''Email verified and deliverable''\<rparr>)
      else if rejected smtp_res then
        result\<lparr>status := ''invalid'',
               reason := ''Mailbox rejected: ''
                         @ (case error smtp_res of None \<Rightarrow> ''None'' | Some e \<Rightarrow> e)\<rparr>
      else
        (if valid mx \<and> (spf d \<or> dmarc d) then
           result\<lparr>status := ''likely_valid'',
                  reason := ''Domain valid with security records (SMTP timeout - may be blocked)'',
                  confidence := min (70 / 100) (conf + 10 / 100)\<rparr>
         else
           result\<lparr>status := ''unknown'',
                  reason := ''Could not verify mailbox (server unavailable or timeout)''\<rparr>))"

definition apply_override :: "string \<Rightarrow> verification \<Rightarrow> verification" where
  "apply_override domain result =
     (case DOMAIN_CONFIDENCE_OVERRIDES domain of
        None \<Rightarrow> result
      | Some ov \<Rightarrow>
          (let r1 = (case min_confidence ov of
                       None \<Rightarrow> result
                     | Some m \<Rightarrow> result\<lparr>confidence := max (confidence result) m\<rparr>)
           in case force_status ov of None \<Rightarrow> r1 | Some s \<Rightarrow> r1\<lparr>status := s\<rparr>))"

text \<open>Step 1, the MX check through its cache, and step 3, the deliverability record
  through its cache.\<close>

definition cached_mx_check :: "world \<Rightarrow> config \<Rightarrow> string \<Rightarrow> vstate \<Rightarrow> mx_check \<times> vstate" where
  "cached_mx_check w cfg domain st =
     (let (cached, c1, st1) = get_cached w ''mx'' (mx_cache st) domain st;
          st1 = st1\<lparr>mx_cache := c1\<rparr>
      in case cached of
           Some m \<Rightarrow> (m, st1)
         | None \<Rightarrow>
             (let (m, sa) = check_mx_records w domain st1;
                  (c2, sb) = set_cache w cfg ''mx'' (mx_cache sa) domain m sa
              in (m, sb\<lparr>mx_cache := c2\<rparr>)))"

definition cached_deliverability ::
  "world \<Rightarrow> config \<Rightarrow> string \<Rightarrow> vstate \<Rightarrow> deliverability \<times> vstate" where
  "cached_deliverability w cfg domain st =
     (let (cached, c1, st1) =
            get_cached w ''deliverability'' (deliverability_cache st) domain st;
          st1 = st1\<lparr>deliverability_cache := c1\<rparr>;
          (d0, st2) =
            (case cached of
               Some d \<Rightarrow> (d, st1)
             | None \<Rightarrow>
                 (let (d, sa) = check_deliverability w domain st1;
                      (c2, sb) = set_cache w cfg ''deliverability''
                                   (deliverability_cache sa) domain d sa
                  in (d, sb\<lparr>deliverability_cache := c2\<rparr>)))
      in (d0\<lparr>dl_skipped := False\<rparr>, st2))"

text \<open>Step 4, catch-all detection, skipped in fast mode; step 5, the reputation lookups,
  whose exception becomes an error payload.\<close>

definition catch_all_step ::
  "world \<Rightarrow> config \<Rightarrow> bool \<Rightarrow> string \<Rightarrow> string list \<Rightarrow> vstate \<Rightarrow> catch_all \<times> vstate" where
  "catch_all_step w cfg fast_mode domain hosts st =
     (if fast_mode then (\<lparr>is_catchall = False, test_email = None, ca_skipped = True\<rparr>, st)
      else detect_catch_all w cfg domain hosts st)"

definition internet_step ::
  "world \<Rightarrow> config \<Rightarrow> bool \<Rightarrow> string \<Rightarrow> vstate \<Rightarrow> (string + string) option \<times> vstate" where
  "internet_step w cfg internet_checks email_in st =
     (if internet_checks \<or> enable_internet_checks cfg then
        (Some (internet_presence w (length (trace st)) email_in (hibp_enabled cfg)),
         emit (InternetCheck email_in) st)
      else (None, st))"

definition verify_email ::
  "world \<Rightarrow> config \<Rightarrow> string \<Rightarrow> bool \<Rightarrow> string \<Rightarrow> bool \<Rightarrow> vstate \<Rightarrow> verification \<times> vstate" where
  "verify_email w cfg email_in fast_mode confidence_mode internet_checks st =
     (if email_in = [] \<or> CHR ''@'' \<notin> set email_in then
        (\<lparr>email = email_in, status = ''invalid'', confidence = 0,
          reason = ''Invalid email format'', details = empty_details\<rparr>, st)
      else
        (let domain = snd (split_at (lower email_in));
             mode = lower (if confidence_mode = [] then ''balanced'' else confidence_mode);
             (mx, st1) = cached_mx_check w cfg domain st
         in if \<not> valid mx then
              (\<lparr>email = email_in, status = ''invalid'', confidence = 0,
                reason = ''Domain has no valid MX records'',
                details = empty_details\<lparr>d_mx_check := Some mx\<rparr>\<rparr>, st1)
            else
              (let (smtp_res, st2) = smtp_handshake w cfg email_in domain (mx_hosts mx) st1;
                   (d, st3) = cached_deliverability w cfg domain st2;
                   (ca, st4) = catch_all_step w cfg fast_mode domain (mx_hosts mx) st3;
                   (internet, st5) = internet_step w cfg internet_checks email_in st4;
                   conf = calculate_confidence smtp_res ca mx d mode;
                   result = \<lparr>email = email_in, status = ''unknown'', confidence = conf,
                             reason = [],
                             details = \<lparr>d_mx_check = Some mx, d_smtp_check = Some smtp_res,
                                        d_deliverability = Some d, d_catch_all = Some ca,
                                        d_internet_check = internet\<rparr>\<rparr>
               in (apply_override domain (determine_status smtp_res ca mx d conf result),
                   st5))))"

section \<open>Template expansion (str.format)\<close>

text \<open>
  \<open>template.format(**tokens)\<close> has three outcomes: the expanded string, a \<open>KeyError\<close>
  (which \<open>generate_patterns\<close> catches), or another exception (\<open>ValueError\<close>,
  \<open>IndexError\<close>, ...), which it does not catch.

  The model reads the template from left to right as Python does. Text is copied,
  \<open>{{\<close> and \<open>}}\<close> stand for one brace, a lone \<open>}\<close> or an unclosed \<open>{\<close> is a
  \<open>ValueError\<close>, and a field \<open>{name}\<close> is looked up in the tokens: an empty or all-digit
  name asks for a positional argument, of which there is none (\<open>IndexError\<close>). A field
  that holds one of the characters \<open>{ ! : . [ ]\<close> uses a conversion, a format
  specification or an attribute or index lookup; what Python makes of such a template
  is not modelled but asked of the parameter \<open>xf\<close>, applied to the whole template.
\<close>

datatype fmt_result = Formatted string | KeyError | FormatError

datatype fmt_mode = Text | Field string

definition is_digit :: "char \<Rightarrow> bool" where
  "is_digit c = (let n = (of_char c :: nat) in 48 \<le> n \<and> n \<le> 57)"

definition field_special :: "char \<Rightarrow> bool" where
  "field_special c = (c \<in> set ''{!:.[]'')"

fun format_chars ::
  "(string \<Rightarrow> fmt_result) \<Rightarrow> (string \<rightharpoonup> string) \<Rightarrow> string \<Rightarrow> string \<Rightarrow> fmt_mode
     \<Rightarrow> string \<Rightarrow> fmt_result" where
  "format_chars xf tokens template [] Text acc = Formatted acc"
| "format_chars xf tokens template [] (Field name) acc = FormatError"
| "format_chars xf tokens template (c # cs) Text acc =
     (if c = CHR ''{'' then
        (case cs of
           [] \<Rightarrow> FormatError
         | c' # cs' \<Rightarrow>
             if c' = CHR ''{'' then format_chars xf tokens template cs' Text (acc @ ''{'')
             else format_chars xf tokens template cs (Field []) acc)
      else if c = CHR ''}'' then
        (case cs of
           [] \<Rightarrow> FormatError
         | c' # cs' \<Rightarrow>
             if c' = CHR ''}'' then format_chars xf tokens template cs' Text (acc @ ''}'')
             else FormatError)
      else format_chars xf tokens template cs Text (acc @ [c]))"
| "format_chars xf tokens template (c # cs) (Field name) acc =
     (if c = CHR ''}'' then
        (if list_all is_digit name then FormatError
         else case tokens name of
                None \<Rightarrow> KeyError
              | Some v \<Rightarrow> format_chars xf tokens template cs Text (acc @ v))
      else if field_special c then xf template
      else format_chars xf tokens template cs (Field (name @ [c])) acc)"

definition format_py ::
  "(string \<Rightarrow> fmt_result) \<Rightarrow> string \<Rightarrow> (string \<rightharpoonup> string) \<Rightarrow> fmt_result" where
  "format_py xf template tokens = format_chars xf tokens template template Text []"

section \<open>Candidate generation (EmailFinder.generate\_patterns)\<close>

definition DEFAULT_PATTERN_TEMPLATES :: "string list" where
  "DEFAULT_PATTERN_TEMPLATES =
     [''{first}.{last}'', ''{first}_{last}'', ''{first}-{last}'', ''{first}{last}'',
      ''{first}{l}'', ''{f}{last}'', ''{f}.{last}'', ''{first}.{l}'', ''{last}.{first}'',
      ''{last}_{first}'', ''{last}{first}'', ''{f}{l}{last}'', ''{first}{last}{f}'',
      ''{first}{last}{l}'', ''{last}{first}{l}'', ''{f}{last}{digits2}'',
      ''{first}{last}{digits2}'', ''{f}{l}{digits2}'']"

definition NUMERIC_SUFFIXES :: "string list" where
  "NUMERIC_SUFFIXES = [''1'', ''12'', ''99'', ''01'', ''001'', ''123'']"

definition SEPARATORS :: "string list" where
  "SEPARATORS = [[], ''.'', ''_'', ''-'']"

datatype py_error = UncaughtFormatError | IndexError

text \<open>The three normalisations at the head of \<open>generate_patterns\<close>.\<close>

definition norm_name :: "string \<Rightarrow> string" where
  "norm_name name = strip (lower name)"

definition norm_domain :: "string \<Rightarrow> string" where
  "norm_domain domain = rstrip_chars (\<lambda>c. c = CHR ''@'') (strip (lower domain))"

text \<open>The closure \<open>add\<close>: \<open>patterns\<close> is the list built so far, and \<open>seen\<close> is its set
  of elements.\<close>

definition add :: "string \<Rightarrow> string \<Rightarrow> string list \<Rightarrow> string list" where
  "add domain_lower pattern patterns =
     (if pattern = [] then patterns
      else (let email_addr = (if CHR ''@'' \<in> set pattern then pattern
                              else pattern @ ''@'' @ domain_lower)
            in if email_addr \<in> set patterns then patterns else patterns @ [email_addr]))"

definition add_all :: "string \<Rightarrow> string list \<Rightarrow> string list \<Rightarrow> string list" where
  "add_all domain_lower new patterns = foldl (\<lambda>ps p. add domain_lower p ps) patterns new"

definition tokens_of :: "string \<Rightarrow> string \<Rightarrow> string \<Rightarrow> (string \<rightharpoonup> string)" where
  "tokens_of fname lname domain_lower =
     map_of [(''first'', fname), (''last'', lname), (''f'', take 1 fname), (''l'', take 1 lname),
             (''fi'', take 2 fname), (''li'', take 2 lname), (''first3'', take 3 fname),
             (''last3'', take 3 lname), (''domain'', domain_lower), (''digits2'', ''12'')]"

text \<open>A loop over templates: an expansion is added, a \<open>KeyError\<close> skips the template,
  any other exception leaves \<open>generate_patterns\<close>.\<close>

fun add_templates ::
  "(string \<Rightarrow> fmt_result) \<Rightarrow> (string \<rightharpoonup> string) \<Rightarrow> string \<Rightarrow> string list \<Rightarrow> string list
     \<Rightarrow> py_error + string list" where
  "add_templates xf tokens domain_lower [] patterns = Inr patterns"
| "add_templates xf tokens domain_lower (template # rest) patterns =
     (case format_py xf template tokens of
        Formatted p \<Rightarrow> add_templates xf tokens domain_lower rest (add domain_lower p patterns)
      | KeyError \<Rightarrow> add_templates xf tokens domain_lower rest patterns
      | FormatError \<Rightarrow> Inl UncaughtFormatError)"

definition base_tokens :: "string \<Rightarrow> string \<Rightarrow> string list" where
  "base_tokens fname lname =
     [fname @ ''.'' @ lname, fname @ lname, fname @ ''_'' @ lname, fname @ ''-'' @ lname,
      fname @ take 1 lname, take 1 fname @ lname, lname @ fname, lname @ ''.'' @ fname]"

definition suffix_sweep :: "string \<Rightarrow> string \<Rightarrow> string list" where
  "suffix_sweep fname lname =
     concat (map (\<lambda>token. map (\<lambda>sfx. token @ sfx) NUMERIC_SUFFIXES) (base_tokens fname lname))"

definition separator_sweep :: "string \<Rightarrow> string \<Rightarrow> string list" where
  "separator_sweep fname lname =
     concat (map (\<lambda>sep. [fname @ sep @ lname, take 1 fname @ sep @ lname,
                          fname @ sep @ take 1 lname, fname @ sep @ lname @ take 1 fname,
                          fname @ sep @ lname @ take 1 lname]) SEPARATORS)"

text \<open>The adds after the sweeps. \<open>first[-1]\<close> and \<open>first[1]\<close> are read where the source
  has made sure they exist; \<open>drop\<close> and \<open>take\<close> give the same character there.\<close>

definition tail_patterns :: "string \<Rightarrow> string \<Rightarrow> string list" where
  "tail_patterns fname lname =
     [lname @ fname @ ''1'', lname @ fname @ ''123'',
      take 1 fname @ lname @ take 1 lname,
      take 1 fname @ lname @ drop (length fname - 1) fname,
      fname @ take 1 lname @ drop (length lname - 1) lname,
      take 1 fname @ lname @ ''1'']
     @ (if length fname > 1 \<and> length lname > 1
        then [take 1 fname @ take 1 (drop 1 fname) @ lname, fname @ take 2 lname,
              take 2 fname @ lname]
        else [])"

text \<open>\<open>custom_patterns\<close> is \<open>None\<close> or a sequence; \<open>None\<close> is the empty list here, both
  skip the loop. Each template is stripped and an empty one is skipped.\<close>

definition custom_templates :: "string list \<Rightarrow> string list" where
  "custom_templates custom_patterns = filter (\<lambda>t. t \<noteq> []) (map strip custom_patterns)"

definition generate_patterns ::
  "(string \<Rightarrow> fmt_result) \<Rightarrow> string \<Rightarrow> string \<Rightarrow> string \<Rightarrow> string list \<Rightarrow> bool
     \<Rightarrow> py_error + string list" where
  "generate_patterns xf first_name last_name domain custom_patterns include_defaults =
     (let fname = norm_name first_name;
          lname = norm_name last_name;
          domain_lower = norm_domain domain
      in if fname = [] \<or> lname = [] \<or> domain_lower = [] then Inr []
         else
           (let tokens = tokens_of fname lname domain_lower
            in case add_templates xf tokens domain_lower
                      (if include_defaults then DEFAULT_PATTERN_TEMPLATES else []) [] of
                 Inl err \<Rightarrow> Inl err
               | Inr p1 \<Rightarrow>
                   (let p2 = add_all domain_lower (suffix_sweep fname lname) p1;
                        p3 = add_all domain_lower (separator_sweep fname lname) p2;
                        p4 = add_all domain_lower (tail_patterns fname lname) p3
                    in add_templates xf tokens domain_lower
                         (custom_templates custom_patterns) p4)))"

section \<open>Prioritising and selecting (EmailFinder.find\_best\_emails)\<close>

text \<open>The five priority shapes, built from the arguments as given (lower-cased, not
  stripped). \<open>first_name[0]\<close> needs a non-empty first name; \<open>find_best_emails\<close> below
  raises \<open>IndexError\<close> otherwise.\<close>

definition priority_patterns :: "string \<Rightarrow> string \<Rightarrow> string \<Rightarrow> string list" where
  "priority_patterns first_name last_name domain =
     [lower first_name @ ''.'' @ lower last_name @ ''@'' @ lower domain,
      lower first_name @ lower last_name @ ''@'' @ lower domain,
      lower first_name @ ''@'' @ lower domain,
      lower (take 1 first_name) @ ''.'' @ lower last_name @ ''@'' @ lower domain,
      lower (take 1 first_name) @ lower last_name @ ''@'' @ lower domain]"

text \<open>The first loop: a priority pattern that is a candidate and not yet taken is
  appended. \<open>seen\<close> is the set of the patterns taken.\<close>

fun take_priority :: "string list \<Rightarrow> string list \<Rightarrow> string list \<Rightarrow> string list" where
  "take_priority patterns [] ordered = ordered"
| "take_priority patterns (p # ps) ordered =
     (if p \<in> set patterns \<and> p \<notin> set ordered then take_priority patterns ps (ordered @ [p])
      else take_priority patterns ps ordered)"

definition prioritize :: "string list \<Rightarrow> string list \<Rightarrow> string list" where
  "prioritize priority patterns =
     (let front = take_priority patterns priority []
      in front @ filter (\<lambda>p. p \<notin> set front) patterns)"

definition clamp_patterns :: "int \<Rightarrow> string list \<Rightarrow> int" where
  "clamp_patterns max_patterns ordered_patterns =
     max 1 (min max_patterns (int (length ordered_patterns)))"

text \<open>\<open>xs[:n]\<close> for an integer \<open>n\<close>: a negative \<open>n\<close> counts from the end.\<close>

definition slice_to :: "int \<Rightarrow> 'a list \<Rightarrow> 'a list" where
  "slice_to n xs = (if 0 \<le> n then take (nat n) xs else take (length xs - nat (- n)) xs)"

record finding =
  f_email :: string
  f_status :: string
  f_confidence :: rat
  f_reason :: string

definition collectible :: "verification \<Rightarrow> bool" where
  "collectible v = (status v \<in> set [''valid'', ''catch-all'', ''likely_valid''])"

definition finding_of :: "string \<Rightarrow> verification \<Rightarrow> finding" where
  "finding_of e v =
     \<lparr>f_email = e, f_status = status v, f_confidence = confidence v, f_reason = reason v\<rparr>"

text \<open>
  The probing loop. The verifier is a parameter: it takes its state and an address and
  returns a verification or raises (\<open>Inl\<close>, with \<open>str(e)\<close>), and the loop logs an
  exception and goes on.
\<close>

fun probe_loop ::
  "('st \<Rightarrow> string \<Rightarrow> (string + verification) \<times> 'st) \<Rightarrow> int \<Rightarrow> string list \<Rightarrow> finding list
     \<Rightarrow> 'st \<Rightarrow> finding list \<times> 'st" where
  "probe_loop verify max_results [] results st = (results, st)"
| "probe_loop verify max_results (e # rest) results st =
     (case verify st e of
        (Inl err, st') \<Rightarrow> probe_loop verify max_results rest results st'
      | (Inr v, st') \<Rightarrow>
          if collectible v then
            (let results' = results @ [finding_of e v]
             in if confidence v \<ge> 8 / 10 \<and> int (length results') \<ge> max_results
                then (results', st')
                else probe_loop verify max_results rest results' st')
          else probe_loop verify max_results rest results st')"

text \<open>\<open>results.sort(key=confidence, reverse=True)\<close> is stable, and so is \<open>sort_key\<close>.\<close>

definition select_best ::
  "('st \<Rightarrow> string \<Rightarrow> (string + verification) \<times> 'st) \<Rightarrow> int \<Rightarrow> string list \<Rightarrow> 'st
     \<Rightarrow> finding list \<times> 'st" where
  "select_best verify max_results patterns_to_check st =
     (let (results, st') = probe_loop verify max_results patterns_to_check [] st
      in (slice_to max_results (sort_key (\<lambda>f. - f_confidence f) results), st'))"

definition find_best_emails_with ::
  "('st \<Rightarrow> string \<Rightarrow> (string + verification) \<times> 'st) \<Rightarrow> (string \<Rightarrow> fmt_result)
     \<Rightarrow> string \<Rightarrow> string \<Rightarrow> string \<Rightarrow> int \<Rightarrow> int \<Rightarrow> string list \<Rightarrow> bool \<Rightarrow> 'st
     \<Rightarrow> py_error + (finding list \<times> 'st)" where
  "find_best_emails_with verify xf first_name last_name domain max_results max_patterns
       custom_patterns include_defaults st =
     (case generate_patterns xf first_name last_name domain custom_patterns include_defaults of
        Inl err \<Rightarrow> Inl err
      | Inr patterns \<Rightarrow>
          if patterns = [] then Inr ([], st)
          else if first_name = [] then Inl IndexError
          else
            (let ordered_patterns =
                   prioritize (priority_patterns first_name last_name domain) patterns;
                 limit = clamp_patterns max_patterns ordered_patterns;
                 patterns_to_check = take (nat limit) ordered_patterns
             in Inr (select_best verify max_results patterns_to_check st)))"

text \<open>\<open>find_best_emails\<close> proper: the verifier is \<open>verify_email\<close>, which in this model
  always returns.\<close>

definition find_best_emails ::
  "world \<Rightarrow> config \<Rightarrow> (string \<Rightarrow> fmt_result) \<Rightarrow> string \<Rightarrow> string \<Rightarrow> string \<Rightarrow> int \<Rightarrow> int
     \<Rightarrow> string list \<Rightarrow> bool \<Rightarrow> bool \<Rightarrow> string \<Rightarrow> bool \<Rightarrow> vstate
     \<Rightarrow> py_error + (finding list \<times> vstate)" where
  "find_best_emails w cfg xf first_name last_name domain max_results max_patterns
       custom_patterns include_defaults fast_mode confidence_mode internet_checks st =
     find_best_emails_with
       (\<lambda>s e. (case verify_email w cfg e fast_mode confidence_mode internet_checks s of
                  (v, s') \<Rightarrow> (Inr v, s')))
       xf first_name last_name domain max_results max_patterns custom_patterns
       include_defaults st"

section \<open>Predicates and sample inputs used by the theorems\<close>

text \<open>The three flags of a probe outcome while the host loop is still running, and
  after a host has answered for good.\<close>

definition idle :: "smtp_result \<Rightarrow> bool" where
  "idle r = (\<not> accepted r \<and> \<not> rejected r \<and> \<not> skipped r)"

definition decided :: "smtp_result \<Rightarrow> bool" where
  "decided r = (accepted r \<noteq> rejected r \<and> \<not> skipped r)"

text \<open>
  \<open>rcpt_answered s code message\<close>: in session \<open>s\<close> the object is created, the
  connection, the greeting and \<open>MAIL FROM\<close> succeed (reply 250 or 251), and \<open>RCPT TO\<close>
  returns \<open>code\<close> with \<open>message\<close>. What \<open>QUIT\<close> does afterwards is left open.
\<close>

definition rcpt_answered :: "smtp_session \<Rightarrow> int \<Rightarrow> string \<Rightarrow> bool" where
  "rcpt_answered s code message =
     (create_r s = None \<and> connect_r s = None \<and>
      (case ehlo_r s of Inl e \<Rightarrow> False | Inr c \<Rightarrow> c = 250 \<or> helo_r s = None) \<and>
      (case mail_r s of Inl e \<Rightarrow> False | Inr m \<Rightarrow> m = 250 \<or> m = 251) \<and>
      rcpt_r s = Inr (code, message))"

text \<open>
  The two policy checks at the head of \<open>smtp_handshake\<close>, which skip the probe before any
  session is opened (a blocked provider domain, or a transactional mail service among the
  first two hosts); and what the function does to the result after a host loop that ran
  to its end: it supplies the reason when none was recorded.
\<close>

definition policy_skipped :: "string \<Rightarrow> string list \<Rightarrow> bool" where
  "policy_skipped domain hosts =
     (list_ex (\<lambda>blocked. contains blocked (lower domain)
                          \<or> suffix (''.'' @ blocked) (lower domain)) smtp_blocked_domains \<or>
      list_ex (\<lambda>mx_host. list_ex (\<lambda>pattern. contains pattern (lower mx_host))
                            transactional_patterns) (take 2 hosts))"

definition exhausted :: "smtp_result \<Rightarrow> smtp_result" where
  "exhausted r =
     (if error r = None \<or> error r = Some []
      then r\<lparr>error := Some ''Could not connect to any MX server''\<rparr> else r)"

text \<open>Values before rounding lie on the grid of twentieths.\<close>

definition on_grid :: "rat \<Rightarrow> bool" where
  "on_grid x = (\<exists>k::int. x = of_int k / 20)"

text \<open>
  A session in which every command completes, \<open>RCPT TO\<close> is answered with the given
  code, and \<open>QUIT\<close> does what the second argument says; a world with two MX hosts
  that answers every session with such a script; a configuration and an initial state.
\<close>

definition sample_session :: "int \<Rightarrow> smtp_exn option \<Rightarrow> smtp_session" where
  "sample_session code quit =
     \<lparr>create_r = None, connect_r = None, ehlo_r = Inr 250, helo_r = None, mail_r = Inr 250,
      rcpt_r = Inr (code, ''reply''), quit_r = quit\<rparr>"

definition sample_world :: "smtp_session \<Rightarrow> (string \<Rightarrow> dns_exn + string list) \<Rightarrow> world" where
  "sample_world s txt =
     \<lparr>resolve_a = (\<lambda>n d. None),
      resolve_mx = (\<lambda>n d. Inr [(20, ''mx2.example.org.''), (10, ''mx1.example.org.'')]),
      resolve_txt = (\<lambda>n d. txt d),
      smtp = (\<lambda>n host sender rcpt. s),
      clock = (\<lambda>n. of_nat n),
      random_choices = (\<lambda>n. ''k3j9x0q2m5n8p1z''),
      internet_presence = (\<lambda>n e h. Inr ''{}'')\<rparr>"

definition spf_only :: "string \<Rightarrow> dns_exn + string list" where
  "spf_only d =
     (if d = ''example.org'' \<or> d = ''gmail.com'' then Inr [''v=spf1 -all''] else Inl NoAnswer)"

definition no_txt :: "string \<Rightarrow> dns_exn + string list" where
  "no_txt d = Inl NoAnswer"

definition sample_config :: config where
  "sample_config = \<lparr>cache_ttl = 3600, enable_internet_checks = False, hibp_enabled = True,
                    sender_domain = ''probe.example.net''\<rparr>"

definition empty_state :: vstate where
  "empty_state = \<lparr>mx_cache = Map.empty, deliverability_cache = Map.empty, trace = []\<rparr>"

text \<open>
  The stop rule in the words of the specification: the number of collected results has
  reached \<open>max_results\<close> and the most recently collected result has confidence at least
  0.8. \<open>probe_spec\<close> is the selector written from that rule: after each candidate it
  looks at the results collected so far and halts when the rule holds.
\<close>

definition halt :: "int \<Rightarrow> finding list \<Rightarrow> bool" where
  "halt max_results results =
     (results \<noteq> [] \<and> 8 / 10 \<le> f_confidence (last results) \<and>
      max_results \<le> int (length results))"

definition collect :: "string \<Rightarrow> string + verification \<Rightarrow> finding list \<Rightarrow> finding list" where
  "collect e outcome results =
     (case outcome of
        Inl err \<Rightarrow> results
      | Inr v \<Rightarrow> if collectible v then results @ [finding_of e v] else results)"

fun probe_spec ::
  "('st \<Rightarrow> string \<Rightarrow> (string + verification) \<times> 'st) \<Rightarrow> int \<Rightarrow> string list \<Rightarrow> finding list
     \<Rightarrow> 'st \<Rightarrow> finding list \<times> 'st" where
  "probe_spec verify max_results [] results st = (results, st)"
| "probe_spec verify max_results (e # rest) results st =
     (let (outcome, st') = verify st e;
          results' = collect e outcome results
      in if halt max_results results' then (results', st')
         else probe_spec verify max_results rest results' st')"

text \<open>A verifier that counts its calls in its state and finds every address valid with
  the given confidence.\<close>

definition counting_verifier :: "rat \<Rightarrow> nat \<Rightarrow> string \<Rightarrow> (string + verification) \<times> nat" where
  "counting_verifier c n e =
     (Inr \<lparr>email = e, status = ''valid'', confidence = c,
           reason = ''Email verified and deliverable'', details = empty_details\<rparr>, Suc n)"

text \<open>A stand-in for Python on the templates that the model does not expand itself.\<close>

definition no_extended_format :: "string \<Rightarrow> fmt_result" where
  "no_extended_format template = FormatError"

section \<open>Properties of the SMTP probe and of the orchestrator\<close>

subsection \<open>The flags of a probe outcome exclude each other\<close>

lemma interpret_response_flags:
  "idle r \<Longrightarrow>
     (case interpret_response code m h r of Return r' \<Rightarrow> decided r' | Continue r' \<Rightarrow> idle r')"
  by (simp add: interpret_response_def idle_def decided_def)

lemma inner_except_idle: "idle r \<Longrightarrow> idle (inner_except e r)"
  by (cases e) (simp_all add: idle_def)

lemma outer_except_idle: "idle r \<Longrightarrow> idle (outer_except e r)"
  by (cases e) (simp_all add: idle_def)

lemma session_body_flags:
  "idle r \<Longrightarrow> session_body s h r = Inr f \<Longrightarrow>
     (case f of Return r' \<Rightarrow> decided r' | Continue r' \<Rightarrow> idle r')"
  using interpret_response_flags[of r]
  by (auto simp: session_body_def split: option.splits sum.splits if_splits prod.splits)

lemma try_host_flags:
  "idle r \<Longrightarrow> (case try_host s h r of Return r' \<Rightarrow> decided r' | Continue r' \<Rightarrow> idle r')"
  using session_body_flags[of r s h]
  by (auto simp: try_host_def inner_except_idle outer_except_idle split: option.splits sum.splits)

lemma host_loop_flags:
  "idle r \<Longrightarrow>
     (case fst (host_loop w cfg e hs r st) of Return r' \<Rightarrow> decided r' | Continue r' \<Rightarrow> idle r')"
proof (induction hs arbitrary: r st)
  case Nil
  then show ?case by simp
next
  case (Cons h hs)
  let ?s = "smtp w (length (trace st)) h (''verify@'' @ sender_domain cfg) e"
  show ?case
  proof (cases "try_host ?s h r")
    case (Return r')
    with try_host_flags[OF Cons.prems, of ?s h] show ?thesis by (simp add: Let_def)
  next
    case (Continue r')
    with try_host_flags[OF Cons.prems, of ?s h] have "idle r'" by simp
    from Cons.IH[OF this] Continue show ?thesis by (simp add: Let_def)
  qed
qed

lemma smtp_handshake_flags:
  "smtp_handshake w cfg e dm hs st = (r, st') \<Longrightarrow>
     (skipped r \<longrightarrow> \<not> accepted r \<and> \<not> rejected r) \<and> (accepted r \<longrightarrow> \<not> rejected r)"
  using host_loop_flags[of "\<lparr>accepted = False, rejected = False, error = None,
                             mx_used = None, skipped = False\<rparr>" w cfg e "take 2 hs" st]
  by (auto simp: smtp_handshake_def Let_def idle_def decided_def
           split: if_splits prod.splits flow.splits)

subsection \<open>The three ways through verify\_email\<close>

lemma apply_override_id: "apply_override dm r = r"
  by (simp add: apply_override_def DOMAIN_CONFIDENCE_OVERRIDES_def)

lemma determine_status_details: "details (determine_status s ca mx d c r) = details r"
  by (simp add: determine_status_def)

lemma determine_status_rejected:
  "rejected s \<Longrightarrow> \<not> accepted s \<Longrightarrow> \<not> skipped s \<Longrightarrow>
     status (determine_status s ca mx d c r) = ''invalid'' \<and>
     confidence (determine_status s ca mx d c r) = confidence r"
  by (simp add: determine_status_def)

lemma verify_email_malformed:
  "e = [] \<or> CHR ''@'' \<notin> set e \<Longrightarrow>
     verify_email w cfg e fm cm ic st =
       (\<lparr>email = e, status = ''invalid'', confidence = 0, reason = ''Invalid email format'',
         details = empty_details\<rparr>, st)"
  by (simp add: verify_email_def)

lemma verify_email_no_mx:
  assumes "e \<noteq> []" and "CHR ''@'' \<in> set e"
    and "cached_mx_check w cfg (snd (split_at (lower e))) st = (mx, st1)"
    and "\<not> valid mx"
  shows "verify_email w cfg e fm cm ic st =
       (\<lparr>email = e, status = ''invalid'', confidence = 0,
         reason = ''Domain has no valid MX records'',
         details = empty_details\<lparr>d_mx_check := Some mx\<rparr>\<rparr>, st1)"
  using assms by (simp add: verify_email_def Let_def)

lemma verify_email_pipeline:
  assumes "e \<noteq> []" and "CHR ''@'' \<in> set e"
    and "cached_mx_check w cfg (snd (split_at (lower e))) st = (mx, st1)"
    and "valid mx"
    and "smtp_handshake w cfg e (snd (split_at (lower e))) (mx_hosts mx) st1 = (sr, st2)"
    and "cached_deliverability w cfg (snd (split_at (lower e))) st2 = (d, st3)"
    and "catch_all_step w cfg fm (snd (split_at (lower e))) (mx_hosts mx) st3 = (ca, st4)"
    and "internet_step w cfg ic e st4 = (it, st5)"
  shows "verify_email w cfg e fm cm ic st =
       (determine_status sr ca mx d
          (calculate_confidence sr ca mx d (lower (if cm = [] then ''balanced'' else cm)))
          \<lparr>email = e, status = ''unknown'',
            confidence = calculate_confidence sr ca mx d
                           (lower (if cm = [] then ''balanced'' else cm)),
            reason = [],
            details = \<lparr>d_mx_check = Some mx, d_smtp_check = Some sr,
                       d_deliverability = Some d, d_catch_all = Some ca,
                       d_internet_check = it\<rparr>\<rparr>, st5)"
  using assms by (simp add: verify_email_def Let_def apply_override_id)

lemma verify_email_rejected:
  assumes "verify_email w cfg e fm cm ic st = (res, st')"
    and "d_smtp_check (details res) = Some s" and "rejected s"
  shows "\<not> accepted s \<and> status res = ''invalid'' \<and> confidence res = 0"
proof (cases "e = [] \<or> CHR ''@'' \<notin> set e")
  case True
  from verify_email_malformed[OF True, of w cfg fm cm ic st] assms
  show ?thesis by (auto simp: empty_details_def)
next
  case False
  then have ok: "e \<noteq> []" "CHR ''@'' \<in> set e" by simp_all
  let ?dm = "snd (split_at (lower e))"
  obtain mx st1 where mx: "cached_mx_check w cfg ?dm st = (mx, st1)" by fastforce
  show ?thesis
  proof (cases "valid mx")
    case False
    from verify_email_no_mx[OF ok mx False, of fm cm ic] assms
    show ?thesis by (auto simp: empty_details_def)
  next
    case True
    obtain sr st2 where sr: "smtp_handshake w cfg e ?dm (mx_hosts mx) st1 = (sr, st2)"
      by fastforce
    obtain d st3 where d: "cached_deliverability w cfg ?dm st2 = (d, st3)" by fastforce
    obtain ca st4 where ca: "catch_all_step w cfg fm ?dm (mx_hosts mx) st3 = (ca, st4)"
      by fastforce
    obtain it st5 where it: "internet_step w cfg ic e st4 = (it, st5)" by fastforce
    note p = verify_email_pipeline[OF ok mx True sr d ca it, of cm]
    from p assms(1,2) have "s = sr" by (auto simp: determine_status_details)
    with smtp_handshake_flags[OF sr] assms(3)
    have fl: "\<not> accepted sr" "\<not> skipped sr" "rejected sr" by auto
    then have "calculate_confidence sr ca mx d (lower (if cm = [] then ''balanced'' else cm)) = 0"
      by (simp add: calculate_confidence_def)
    with p assms(1) determine_status_rejected[OF fl(3,1,2)] fl \<open>s = sr\<close>
    show ?thesis by auto
  qed
qed

text \<open>
  Claim C1. A probe outcome with \<open>rejected\<close> set and \<open>accepted\<close> clear makes
  \<open>calculate_confidence\<close> return 0 whatever the catch-all result, the MX check, the
  deliverability record and the mode are (so the floors of aggressive mode are never
  reached); and whenever the probe that \<open>verify_email\<close> ran came back rejected, the
  result has status \<open>invalid\<close> and confidence 0.
\<close>

theorem rejected_probe_invalid:
  "(rejected s \<and> \<not> accepted s \<longrightarrow> calculate_confidence s ca mx d mode = 0) \<and>
   (verify_email w cfg e fm cm ic st = (res, st') \<and>
    d_smtp_check (details res) = Some s' \<and> rejected s' \<longrightarrow>
      \<not> accepted s' \<and> status res = ''invalid'' \<and> confidence res = 0)"
  using verify_email_rejected[of w cfg e fm cm ic st res st' s']
  by (simp add: calculate_confidence_def)

theorem rejected_probe_invalid_witness:
  "d_smtp_check (details (fst (verify_email (sample_world (sample_session 550 None) spf_only)
                sample_config ''Jo@Example.org'' True ''aggressive'' False empty_state))) =
      Some \<lparr>accepted = False, rejected = True, error = Some ''Mailbox does not exist'',
            mx_used = Some ''mx1.example.org'', skipped = False\<rparr> \<and>
   status (fst (verify_email (sample_world (sample_session 550 None) spf_only)
                sample_config ''Jo@Example.org'' True ''aggressive'' False empty_state)) = ''invalid'' \<and>
   confidence (fst (verify_email (sample_world (sample_session 550 None) spf_only)
                sample_config ''Jo@Example.org'' True ''aggressive'' False empty_state)) = 0 \<and>
   calculate_confidence \<lparr>accepted = False, rejected = True, error = Some ''Mailbox does not exist'',
            mx_used = Some ''mx1.example.org'', skipped = False\<rparr>
       \<lparr>is_catchall = False, test_email = None, ca_skipped = True\<rparr>
       \<lparr>valid = True, mx_hosts = [], mx_details = [], mx_error = None\<rparr>
       \<lparr>spf = True, dkim = True, dmarc = True, spf_record = None, dmarc_record = None, dl_skipped = False\<rparr>
       ''aggressive'' = 0"
proof -
  let ?v = "verify_email (sample_world (sample_session 550 None) spf_only)
                sample_config ''Jo@Example.org'' True ''aggressive'' False empty_state"
  let ?s = "\<lparr>accepted = False, rejected = True, error = Some ''Mailbox does not exist'',
            mx_used = Some ''mx1.example.org'', skipped = False\<rparr>"
  have h: "d_smtp_check (details (fst ?v)) = Some ?s" by code_simp
  have v: "?v = (fst ?v, snd ?v)" by simp
  from rejected_probe_invalid[of ?s "\<lparr>is_catchall = False, test_email = None, ca_skipped = True\<rparr>"
       "\<lparr>valid = True, mx_hosts = [], mx_details = [], mx_error = None\<rparr>"
       "\<lparr>spf = True, dkim = True, dmarc = True, spf_record = None, dmarc_record = None, dl_skipped = False\<rparr>"
       "''aggressive''" "sample_world (sample_session 550 None) spf_only" sample_config
       "''Jo@Example.org''" True "''aggressive''" False empty_state "fst ?v" "snd ?v" ?s] h v
  show ?thesis by simp
qed

text \<open>
  Claim C9. An address that is empty or has no \<open>@\<close> gets the result with status
  \<open>invalid\<close>, confidence 0 and empty details. The function is total, so nothing is
  raised, and the state comes back as it was: no entry is added to the trace (no DNS
  query, no SMTP session, no cache read or write) and both caches are unchanged.
\<close>

theorem malformed_address_invalid:
  "e = [] \<or> CHR ''@'' \<notin> set e \<Longrightarrow>
     verify_email w cfg e fm cm ic st =
       (\<lparr>email = e, status = ''invalid'', confidence = 0, reason = ''Invalid email format'',
         details = \<lparr>d_mx_check = None, d_smtp_check = None, d_deliverability = None,
                    d_catch_all = None, d_internet_check = None\<rparr>\<rparr>, st) \<and>
     trace (snd (verify_email w cfg e fm cm ic st)) = trace st \<and>
     mx_cache (snd (verify_email w cfg e fm cm ic st)) = mx_cache st \<and>
     deliverability_cache (snd (verify_email w cfg e fm cm ic st)) = deliverability_cache st"
  by (simp add: verify_email_def empty_details_def)

theorem malformed_address_invalid_witness:
  "status (fst (verify_email (sample_world (sample_session 250 None) spf_only) sample_config
                  ''jo.example.org'' False ''balanced'' True empty_state)) = ''invalid'' \<and>
   confidence (fst (verify_email (sample_world (sample_session 250 None) spf_only) sample_config
                  ''jo.example.org'' False ''balanced'' True empty_state)) = 0 \<and>
   trace (snd (verify_email (sample_world (sample_session 250 None) spf_only) sample_config
                  ''jo.example.org'' False ''balanced'' True empty_state)) = []"
proof -
  have "''jo.example.org'' = [] \<or> CHR ''@'' \<notin> set ''jo.example.org''" by simp
  from malformed_address_invalid[OF this, of "sample_world (sample_session 250 None) spf_only"
         sample_config False "''balanced''" True empty_state]
  show ?thesis by (simp add: empty_state_def)
qed

text \<open>
  Claim C8. When the probe that \<open>verify_email\<close> ran was skipped, the MX check is valid,
  and the final status is \<open>likely_valid\<close> with confidence
  \<open>min(0.75, fused confidence + 0.15)\<close> if SPF or DMARC is present, \<open>unknown\<close> if
  neither is. The fused confidence is \<open>calculate_confidence\<close> on the stage results that
  the result carries in its details, in the mode after lower-casing.
\<close>

theorem skipped_probe_status:
  assumes "verify_email w cfg e fm cm ic st = (res, st')"
    and "d_smtp_check (details res) = Some s" and "skipped s"
    and "d_mx_check (details res) = Some mx"
    and "d_deliverability (details res) = Some d"
    and "d_catch_all (details res) = Some ca"
  shows "valid mx \<and>
         (spf d \<or> dmarc d \<longrightarrow>
            status res = ''likely_valid'' \<and>
            confidence res =
              min (75 / 100)
                  (calculate_confidence s ca mx d (lower (if cm = [] then ''balanced'' else cm))
                   + 15 / 100)) \<and>
         (\<not> spf d \<and> \<not> dmarc d \<longrightarrow> status res = ''unknown'')"
proof (cases "e = [] \<or> CHR ''@'' \<notin> set e")
  case True
  from verify_email_malformed[OF True, of w cfg fm cm ic st] assms
  show ?thesis by (auto simp: empty_details_def)
next
  case False
  then have ok: "e \<noteq> []" "CHR ''@'' \<in> set e" by simp_all
  let ?dm = "snd (split_at (lower e))"
  obtain mx0 st1 where mx: "cached_mx_check w cfg ?dm st = (mx0, st1)" by fastforce
  show ?thesis
  proof (cases "valid mx0")
    case False
    from verify_email_no_mx[OF ok mx False, of fm cm ic] assms
    show ?thesis by (auto simp: empty_details_def)
  next
    case True
    obtain sr st2 where sr: "smtp_handshake w cfg e ?dm (mx_hosts mx0) st1 = (sr, st2)"
      by fastforce
    obtain d0 st3 where d: "cached_deliverability w cfg ?dm st2 = (d0, st3)" by fastforce
    obtain ca0 st4 where ca: "catch_all_step w cfg fm ?dm (mx_hosts mx0) st3 = (ca0, st4)"
      by fastforce
    obtain it st5 where it: "internet_step w cfg ic e st4 = (it, st5)" by fastforce
    note p = verify_email_pipeline[OF ok mx True sr d ca it, of cm]
    from p assms(1,2,4,5,6) have eqs: "s = sr" "mx = mx0" "d = d0" "ca = ca0"
      by (auto simp: determine_status_details)
    from p assms(1) have "res = determine_status sr ca0 mx0 d0
          (calculate_confidence sr ca0 mx0 d0 (lower (if cm = [] then ''balanced'' else cm)))
          \<lparr>email = e, status = ''unknown'',
            confidence = calculate_confidence sr ca0 mx0 d0
                           (lower (if cm = [] then ''balanced'' else cm)),
            reason = [],
            details = \<lparr>d_mx_check = Some mx0, d_smtp_check = Some sr,
                       d_deliverability = Some d0, d_catch_all = Some ca0,
                       d_internet_check = it\<rparr>\<rparr>" by simp
    with eqs True assms(3) show ?thesis by (simp add: determine_status_def)
  qed
qed


theorem skipped_probe_status_witness:
  "skipped \<lparr>accepted = False, rejected = False,
            error = Some ''SMTP check skipped (domain typically blocks verification)'',
            mx_used = None, skipped = True\<rparr> \<and>
   status (fst (verify_email (sample_world (sample_session 250 None) spf_only) sample_config
                  ''Jo@gmail.com'' True ''balanced'' False empty_state)) = ''likely_valid'' \<and>
   confidence (fst (verify_email (sample_world (sample_session 250 None) spf_only) sample_config
                  ''Jo@gmail.com'' True ''balanced'' False empty_state)) = 45 / 100"
proof -
  let ?v = "verify_email (sample_world (sample_session 250 None) spf_only) sample_config
              ''Jo@gmail.com'' True ''balanced'' False empty_state"
  let ?s = "\<lparr>accepted = False, rejected = False,
             error = Some ''SMTP check skipped (domain typically blocks verification)'',
             mx_used = None, skipped = True\<rparr>"
  let ?mx = "\<lparr>valid = True, mx_hosts = [''mx1.example.org'', ''mx2.example.org''],
              mx_details = [(10, ''mx1.example.org''), (20, ''mx2.example.org'')],
              mx_error = None\<rparr>"
  let ?d = "\<lparr>spf = True, dkim = False, dmarc = False, spf_record = Some ''v=spf1 -all'',
             dmarc_record = None, dl_skipped = False\<rparr>"
  let ?ca = "\<lparr>is_catchall = False, test_email = None, ca_skipped = True\<rparr>"
  have v: "?v = (fst ?v, snd ?v)" by simp
  have h1: "d_smtp_check (details (fst ?v)) = Some ?s" by code_simp
  have h2: "d_mx_check (details (fst ?v)) = Some ?mx" by code_simp
  have h3: "d_deliverability (details (fst ?v)) = Some ?d" by code_simp
  have h4: "d_catch_all (details (fst ?v)) = Some ?ca" by code_simp
  have c: "calculate_confidence ?s ?ca ?mx ?d (lower ''balanced'') = 30 / 100" by code_simp
  from skipped_probe_status[OF v h1 _ h2 h3 h4] c show ?thesis by simp
qed

subsection \<open>Confidence fusion\<close>

lemma round2_grid: "on_grid x \<Longrightarrow> round2 x = x"
proof -
  assume "on_grid x"
  then obtain k :: int where x: "x = of_int k / 20" unfolding on_grid_def by blast
  have "(of_int k / 20 :: rat) * 100 = of_int (5 * k)" by simp
  then show ?thesis
    unfolding round2_def Let_def x by (simp del: of_int_mult)
qed

lemma on_grid_add: "on_grid x \<Longrightarrow> on_grid y \<Longrightarrow> on_grid (x + y)"
proof -
  assume "on_grid x" "on_grid y"
  then obtain k l where "x = of_int k / 20" "y = of_int l / 20" unfolding on_grid_def by blast
  then have "x + y = of_int (k + l) / 20" by (simp add: add_divide_distrib)
  then show ?thesis unfolding on_grid_def by blast
qed

lemma on_grid_max: "on_grid x \<Longrightarrow> on_grid y \<Longrightarrow> on_grid (max x y)"
  by (simp add: max_def)

lemma on_grid_min: "on_grid x \<Longrightarrow> on_grid y \<Longrightarrow> on_grid (min x y)"
  by (simp add: min_def)

lemma on_grid_int: "on_grid (of_int k / 20)"
  unfolding on_grid_def by blast

lemma on_grid_num: "on_grid 0" "on_grid (60 / 100)" "on_grid (10 / 100)" "on_grid (15 / 100)"
  "on_grid (65 / 100)" "on_grid (1 / 10)" "on_grid (95 / 100)"
  using on_grid_int[of 0] on_grid_int[of 12] on_grid_int[of 2] on_grid_int[of 3]
    on_grid_int[of 13] on_grid_int[of 19]
  by simp_all

lemma on_grid_count: "on_grid ((of_nat (security_count d) / 3) * (15 / 100))"
  using on_grid_int[of "int (security_count d)"] by simp

lemma raw_confidence_grid: "on_grid (raw_confidence s ca mx d m)"
  unfolding raw_confidence_def Let_def
  by (intro on_grid_add on_grid_max on_grid_min on_grid_num on_grid_count | simp only: if_split | intro conjI impI)+

lemma calculate_confidence_raw:
  "calculate_confidence s ca mx d m =
     (if \<not> accepted s \<and> rejected s then 0 else raw_confidence s ca mx d m)"
  by (simp add: calculate_confidence_def round2_grid raw_confidence_grid)

lemma security_count_le3: "security_count d \<le> 3"
  by (simp add: security_count_def)

text \<open>
  Claim C10. In aggressive mode with the probe accepted, the MX check valid and the
  catch-all flag clear, the result is \<open>min(confidence + 0.1, 0.95)\<close> of the weight sum
  (the sum that balanced mode returns before rounding), which is 0.95 always; with all
  three signals present balanced mode gives 1.00, so aggressive mode is not at least
  balanced mode there.
\<close>

theorem aggressive_accepted_cap:
  assumes "accepted s" and "valid mx" and "\<not> is_catchall ca"
  shows "calculate_confidence s ca mx d ''aggressive'' =
           round2 (min (raw_confidence s ca mx d ''balanced'' + 1 / 10) (95 / 100)) \<and>
         calculate_confidence s ca mx d ''aggressive'' = 95 / 100 \<and>
         (spf d \<and> dkim d \<and> dmarc d \<longrightarrow>
            calculate_confidence s ca mx d ''balanced'' = 1 \<and>
            \<not> calculate_confidence s ca mx d ''balanced''
                \<le> calculate_confidence s ca mx d ''aggressive'')"
proof -
  have a: "calculate_confidence s ca mx d ''aggressive'' = 95 / 100"
    using assms by (simp add: calculate_confidence_raw raw_confidence_def Let_def)
  have "min (raw_confidence s ca mx d ''balanced'' + 1 / 10) (95 / 100) = 95 / 100"
    using assms by (simp add: raw_confidence_def Let_def)
  moreover have "round2 (95 / 100) = 95 / 100"
    using round2_grid[OF on_grid_num(7)] .
  ultimately have b: "round2 (min (raw_confidence s ca mx d ''balanced'' + 1 / 10) (95 / 100)) = 95 / 100"
    by (simp only:)
  have c: "spf d \<and> dkim d \<and> dmarc d \<longrightarrow> calculate_confidence s ca mx d ''balanced'' = 1"
    using assms by (simp add: calculate_confidence_raw raw_confidence_def Let_def security_count_def)
  from a b have ab: "calculate_confidence s ca mx d ''aggressive'' =
           round2 (min (raw_confidence s ca mx d ''balanced'' + 1 / 10) (95 / 100))"
    by (simp only:)
  from a c have "spf d \<and> dkim d \<and> dmarc d \<longrightarrow>
            calculate_confidence s ca mx d ''balanced'' = 1 \<and>
            \<not> calculate_confidence s ca mx d ''balanced''
                \<le> calculate_confidence s ca mx d ''aggressive''" by simp
  with ab a show ?thesis by blast
qed


theorem aggressive_accepted_cap_witness:
  "calculate_confidence
     \<lparr>accepted = True, rejected = False, error = None, mx_used = Some ''mx1.example.org'',
      skipped = False\<rparr>
     \<lparr>is_catchall = False, test_email = None, ca_skipped = True\<rparr>
     \<lparr>valid = True, mx_hosts = [''mx1.example.org''], mx_details = [(10, ''mx1.example.org'')],
      mx_error = None\<rparr>
     \<lparr>spf = True, dkim = True, dmarc = True, spf_record = None, dmarc_record = None,
      dl_skipped = False\<rparr> ''aggressive'' = 95 / 100 \<and>
   calculate_confidence
     \<lparr>accepted = True, rejected = False, error = None, mx_used = Some ''mx1.example.org'',
      skipped = False\<rparr>
     \<lparr>is_catchall = False, test_email = None, ca_skipped = True\<rparr>
     \<lparr>valid = True, mx_hosts = [''mx1.example.org''], mx_details = [(10, ''mx1.example.org'')],
      mx_error = None\<rparr>
     \<lparr>spf = True, dkim = True, dmarc = True, spf_record = None, dmarc_record = None,
      dl_skipped = False\<rparr> ''balanced'' = 1"
  using aggressive_accepted_cap[of
     "\<lparr>accepted = True, rejected = False, error = None, mx_used = Some ''mx1.example.org'',
      skipped = False\<rparr>"
     "\<lparr>valid = True, mx_hosts = [''mx1.example.org''], mx_details = [(10, ''mx1.example.org'')],
      mx_error = None\<rparr>"
     "\<lparr>is_catchall = False, test_email = None, ca_skipped = True\<rparr>"
     "\<lparr>spf = True, dkim = True, dmarc = True, spf_record = None, dmarc_record = None,
      dl_skipped = False\<rparr>"]
  by simp

lemma raw_confidence_mono:
  assumes "security_count d1 \<le> security_count d2"
    and "spf d1 \<or> dmarc d1 \<longrightarrow> spf d2 \<or> dmarc d2"
  shows "raw_confidence s ca mx d1 m \<le> raw_confidence s ca mx d2 m"
proof -
  define c3 :: "deliverability \<Rightarrow> rat" where
    "c3 d = (if \<not> is_catchall ca
             then (if valid mx then (if accepted s then 60 / 100 else 0) + 10 / 100
                   else (if accepted s then 60 / 100 else 0)) + 15 / 100
             else (if valid mx then (if accepted s then 60 / 100 else 0) + 10 / 100
                   else (if accepted s then 60 / 100 else 0)))
            + (of_nat (security_count d) / 3) * (15 / 100)" for d
  define a1 :: "bool \<Rightarrow> rat \<Rightarrow> rat" where
    "a1 sec x = (if \<not> accepted s \<and> valid mx \<and> sec then max x (65 / 100) else x)" for sec x
  define a2 :: "rat \<Rightarrow> rat" where
    "a2 x = (if skipped s \<and> valid mx then max x (60 / 100) else x)" for x
  define a3 :: "rat \<Rightarrow> rat" where
    "a3 x = (if \<not> is_catchall ca \<and> valid mx then min (x + 1 / 10) (95 / 100) else x)" for x
  have raw: "raw_confidence s ca mx d m =
               (if m = ''aggressive'' then a3 (a2 (a1 (spf d \<or> dmarc d) (c3 d))) else c3 d)" for d
    by (simp add: raw_confidence_def Let_def c3_def a1_def a2_def a3_def)
  have "(of_nat (security_count d1) :: rat) \<le> of_nat (security_count d2)"
    using assms(1) by simp
  then have c: "c3 d1 \<le> c3 d2" by (simp add: c3_def)
  have m1: "a1 p x \<le> a1 q y" if "x \<le> y" "p \<longrightarrow> q" for p q x y
    using that by (auto simp: a1_def max_def)
  have m2: "a2 x \<le> a2 y" if "x \<le> y" for x y
    using that by (auto simp: a2_def max_def)
  have m3: "a3 x \<le> a3 y" if "x \<le> y" for x y
    using that by (auto simp: a3_def min_def)
  have "a3 (a2 (a1 (spf d1 \<or> dmarc d1) (c3 d1))) \<le> a3 (a2 (a1 (spf d2 \<or> dmarc d2) (c3 d2)))"
    by (intro m3 m2 m1 c assms(2))
  with c show ?thesis unfolding raw by simp
qed

lemma calculate_confidence_mono:
  assumes "security_count d1 \<le> security_count d2"
    and "spf d1 \<or> dmarc d1 \<longrightarrow> spf d2 \<or> dmarc d2"
  shows "calculate_confidence s ca mx d1 m \<le> calculate_confidence s ca mx d2 m"
  using raw_confidence_mono[OF assms] by (simp add: calculate_confidence_raw)

lemma balanced_mono:
  assumes "security_count d1 \<le> security_count d2" and "m \<noteq> ''aggressive''"
  shows "calculate_confidence s ca mx d1 m \<le> calculate_confidence s ca mx d2 m"
  using assms by (simp add: calculate_confidence_raw raw_confidence_def Let_def)

lemma secure_of_count:
  "security_count d1 < security_count d2 \<Longrightarrow> spf d1 \<or> dmarc d1 \<Longrightarrow> spf d2 \<or> dmarc d2"
  by (auto simp: security_count_def split: if_splits)

lemma count_of_pointwise:
  "(spf d1 \<longrightarrow> spf d2) \<and> (dkim d1 \<longrightarrow> dkim d2) \<and> (dmarc d1 \<longrightarrow> dmarc d2) \<Longrightarrow>
     security_count d1 \<le> security_count d2"
  by (auto simp: security_count_def)

text \<open>
  Claim C7, amended. With probe outcome, catch-all result, MX check and mode fixed: in
  every mode other than aggressive the confidence is non-decreasing in the number of true
  signals; in every mode it does not decrease when the number of true signals grows
  strictly, nor when signals are added to a record.
\<close>

theorem confidence_monotone_in_signals:
  "(m \<noteq> ''aggressive'' \<and> security_count d1 \<le> security_count d2 \<longrightarrow>
      calculate_confidence s ca mx d1 m \<le> calculate_confidence s ca mx d2 m) \<and>
   (security_count d1 < security_count d2 \<longrightarrow>
      calculate_confidence s ca mx d1 m \<le> calculate_confidence s ca mx d2 m) \<and>
   ((spf d1 \<longrightarrow> spf d2) \<and> (dkim d1 \<longrightarrow> dkim d2) \<and> (dmarc d1 \<longrightarrow> dmarc d2) \<longrightarrow>
      calculate_confidence s ca mx d1 m \<le> calculate_confidence s ca mx d2 m)"
proof (intro conjI impI)
  assume "m \<noteq> ''aggressive'' \<and> security_count d1 \<le> security_count d2"
  then show "calculate_confidence s ca mx d1 m \<le> calculate_confidence s ca mx d2 m"
    using balanced_mono by blast
next
  assume lt: "security_count d1 < security_count d2"
  show "calculate_confidence s ca mx d1 m \<le> calculate_confidence s ca mx d2 m"
    by (rule calculate_confidence_mono) (use lt secure_of_count[OF lt] in auto)
next
  assume pw: "(spf d1 \<longrightarrow> spf d2) \<and> (dkim d1 \<longrightarrow> dkim d2) \<and> (dmarc d1 \<longrightarrow> dmarc d2)"
  show "calculate_confidence s ca mx d1 m \<le> calculate_confidence s ca mx d2 m"
    by (rule calculate_confidence_mono) (use pw count_of_pointwise[OF pw] in auto)
qed

theorem confidence_monotone_in_signals_witness:
  "security_count \<lparr>spf = False, dkim = True, dmarc = False, spf_record = None,
      dmarc_record = None, dl_skipped = False\<rparr>
     < security_count \<lparr>spf = True, dkim = True, dmarc = False, spf_record = None,
      dmarc_record = None, dl_skipped = False\<rparr> \<and>
   calculate_confidence
     \<lparr>accepted = False, rejected = False, error = Some ''Connection timeout'', mx_used = None,
      skipped = False\<rparr>
     \<lparr>is_catchall = False, test_email = None, ca_skipped = True\<rparr>
     \<lparr>valid = True, mx_hosts = [''mx1.example.org''], mx_details = [(10, ''mx1.example.org'')],
      mx_error = None\<rparr>
     \<lparr>spf = False, dkim = True, dmarc = False, spf_record = None,
      dmarc_record = None, dl_skipped = False\<rparr> ''aggressive''
     \<le> calculate_confidence
     \<lparr>accepted = False, rejected = False, error = Some ''Connection timeout'', mx_used = None,
      skipped = False\<rparr>
     \<lparr>is_catchall = False, test_email = None, ca_skipped = True\<rparr>
     \<lparr>valid = True, mx_hosts = [''mx1.example.org''], mx_details = [(10, ''mx1.example.org'')],
      mx_error = None\<rparr>
     \<lparr>spf = True, dkim = True, dmarc = False, spf_record = None,
      dmarc_record = None, dl_skipped = False\<rparr> ''aggressive''"
  using confidence_monotone_in_signals[of "''aggressive''"
     "\<lparr>spf = False, dkim = True, dmarc = False, spf_record = None,
      dmarc_record = None, dl_skipped = False\<rparr>"
     "\<lparr>spf = True, dkim = True, dmarc = False, spf_record = None,
      dmarc_record = None, dl_skipped = False\<rparr>"
     "\<lparr>accepted = False, rejected = False, error = Some ''Connection timeout'', mx_used = None,
      skipped = False\<rparr>"
     "\<lparr>is_catchall = False, test_email = None, ca_skipped = True\<rparr>"
     "\<lparr>valid = True, mx_hosts = [''mx1.example.org''], mx_details = [(10, ''mx1.example.org'')],
      mx_error = None\<rparr>"]
  by (simp add: security_count_def)

text \<open>
  Claim C7, as stated, read as: a record with at most as many true signals never scores
  higher. It fails in aggressive mode between two records with one true signal each: the
  0.65 floor looks at SPF and DMARC only, so SPF alone scores 0.75 and DKIM alone 0.40
  (probe inconclusive, MX valid, not catch-all).
\<close>

theorem same_count_counterexample:
  "security_count \<lparr>spf = True, dkim = False, dmarc = False, spf_record = None,
      dmarc_record = None, dl_skipped = False\<rparr>
     \<le> security_count \<lparr>spf = False, dkim = True, dmarc = False, spf_record = None,
      dmarc_record = None, dl_skipped = False\<rparr> \<and>
   calculate_confidence
     \<lparr>accepted = False, rejected = False, error = Some ''Connection timeout'', mx_used = None,
      skipped = False\<rparr>
     \<lparr>is_catchall = False, test_email = None, ca_skipped = True\<rparr>
     \<lparr>valid = True, mx_hosts = [''mx1.example.org''], mx_details = [(10, ''mx1.example.org'')],
      mx_error = None\<rparr>
     \<lparr>spf = True, dkim = False, dmarc = False, spf_record = None,
      dmarc_record = None, dl_skipped = False\<rparr> ''aggressive'' = 75 / 100 \<and>
   calculate_confidence
     \<lparr>accepted = False, rejected = False, error = Some ''Connection timeout'', mx_used = None,
      skipped = False\<rparr>
     \<lparr>is_catchall = False, test_email = None, ca_skipped = True\<rparr>
     \<lparr>valid = True, mx_hosts = [''mx1.example.org''], mx_details = [(10, ''mx1.example.org'')],
      mx_error = None\<rparr>
     \<lparr>spf = False, dkim = True, dmarc = False, spf_record = None,
      dmarc_record = None, dl_skipped = False\<rparr> ''aggressive'' = 40 / 100 \<and>
   \<not> calculate_confidence
     \<lparr>accepted = False, rejected = False, error = Some ''Connection timeout'', mx_used = None,
      skipped = False\<rparr>
     \<lparr>is_catchall = False, test_email = None, ca_skipped = True\<rparr>
     \<lparr>valid = True, mx_hosts = [''mx1.example.org''], mx_details = [(10, ''mx1.example.org'')],
      mx_error = None\<rparr>
     \<lparr>spf = True, dkim = False, dmarc = False, spf_record = None,
      dmarc_record = None, dl_skipped = False\<rparr> ''aggressive''
       \<le> calculate_confidence
     \<lparr>accepted = False, rejected = False, error = Some ''Connection timeout'', mx_used = None,
      skipped = False\<rparr>
     \<lparr>is_catchall = False, test_email = None, ca_skipped = True\<rparr>
     \<lparr>valid = True, mx_hosts = [''mx1.example.org''], mx_details = [(10, ''mx1.example.org'')],
      mx_error = None\<rparr>
     \<lparr>spf = False, dkim = True, dmarc = False, spf_record = None,
      dmarc_record = None, dl_skipped = False\<rparr> ''aggressive''"
  by (simp add: calculate_confidence_raw raw_confidence_def security_count_def)

subsection \<open>Classification of the RCPT reply and the host loop\<close>

lemma try_host_answered:
  "rcpt_answered s code message \<Longrightarrow> quit_r s = None \<Longrightarrow>
     try_host s h r = interpret_response code message h r"
  by (auto simp: rcpt_answered_def try_host_def session_body_def split: sum.splits)

lemma try_host_quit_raises:
  "rcpt_answered s code message \<Longrightarrow> quit_r s = Some x \<Longrightarrow>
     try_host s h r = Continue (inner_except x r)"
  by (auto simp: rcpt_answered_def try_host_def session_body_def split: sum.splits)

lemma host_loop_trace:
  "host_loop w cfg e hs r st = (f, st') \<Longrightarrow>
     \<exists>k \<le> length hs. trace st' = trace st @ map SmtpOpen (take k hs) \<and>
        (case f of Continue r' \<Rightarrow> k = length hs | Return r' \<Rightarrow> 0 < k)"
proof (induction hs arbitrary: r st)
  case Nil
  then show ?case by auto
next
  case (Cons h hs)
  let ?s = "smtp w (length (trace st)) h (''verify@'' @ sender_domain cfg) e"
  show ?case
  proof (cases "try_host ?s h r")
    case (Return r')
    with Cons.prems have "f = Return r'" "st' = emit (SmtpOpen h) st" by (simp_all add: Let_def)
    then have "trace st' = trace st @ map SmtpOpen (take 1 (h # hs)) \<and>
        (case f of Continue r' \<Rightarrow> (1::nat) = length (h # hs) | Return r' \<Rightarrow> 0 < (1::nat))"
      by (simp add: emit_def)
    then show ?thesis by (intro exI[of _ 1]) simp
  next
    case (Continue r')
    with Cons.prems have "host_loop w cfg e hs r' (emit (SmtpOpen h) st) = (f, st')"
      by (simp add: Let_def)
    from Cons.IH[OF this] obtain k where k: "k \<le> length hs"
      "trace st' = trace (emit (SmtpOpen h) st) @ map SmtpOpen (take k hs)"
      "(case f of Continue r' \<Rightarrow> k = length hs | Return r' \<Rightarrow> 0 < k)" by blast
    then have "Suc k \<le> length (h # hs) \<and> trace st' = trace st @ map SmtpOpen (take (Suc k) (h # hs)) \<and>
        (case f of Continue r' \<Rightarrow> Suc k = length (h # hs) | Return r' \<Rightarrow> 0 < Suc k)"
      by (auto simp: emit_def split: flow.splits)
    then show ?thesis by blast
  qed
qed

lemma smtp_handshake_attempts:
  assumes "smtp_handshake w cfg e dm hosts st = (res, st')"
  shows "(\<exists>k \<le> 2. trace st' = trace st @ map SmtpOpen (take k hosts)) \<and>
         (\<not> accepted res \<and> \<not> rejected res \<and> \<not> skipped res \<longrightarrow>
            trace st' = trace st @ map SmtpOpen (take 2 hosts) \<and>
            error res \<noteq> None \<and> error res \<noteq> Some [])"
proof -
  let ?r0 = "\<lparr>accepted = False, rejected = False, error = None, mx_used = None, skipped = False\<rparr>"
  obtain f st1 where hl: "host_loop w cfg e (take 2 hosts) ?r0 st = (f, st1)" by fastforce
  from host_loop_trace[OF hl] obtain k where k: "k \<le> length (take 2 hosts)"
    "trace st1 = trace st @ map SmtpOpen (take k (take 2 hosts))"
    "(case f of Continue r' \<Rightarrow> k = length (take 2 hosts) | Return r' \<Rightarrow> 0 < k)" by blast
  have k2: "k \<le> 2" using k(1) by simp
  then have tk: "take k (take 2 hosts) = take k hosts" by (simp add: min_def)
  have ex: "\<exists>k \<le> 2. trace st1 = trace st @ map SmtpOpen (take k hosts)"
    using k(2) k2 tk by auto
  have full: "trace st1 = trace st @ map SmtpOpen (take 2 hosts)" if "f = Continue r" for r
  proof -
    have "take (length (take 2 hosts)) (take 2 hosts) = take 2 hosts" by (rule take_all) simp
    with k(2,3) that show ?thesis by (simp del: length_take take_take)
  qed
  have idle0: "idle ?r0" by (simp add: idle_def)
  from host_loop_flags[OF idle0, of w cfg e "take 2 hosts" st] hl
  have fl: "(case f of Return r' \<Rightarrow> decided r' | Continue r' \<Rightarrow> idle r')" by simp
  show ?thesis
  proof (cases "skipped res")
    case True
    with assms hl fl have "st' = st"
      by (auto simp: smtp_handshake_def Let_def idle_def decided_def split: if_splits flow.splits)
    then have "trace st' = trace st @ map SmtpOpen (take 0 hosts)" by simp
    with True show ?thesis by (intro conjI exI[of _ 0]) simp_all
  next
    case False
    then have run: "(case f of Return r \<Rightarrow> (res, st') = (r, st1)
            | Continue r \<Rightarrow> (res, st') = (if error r = None \<or> error r = Some []
                 then (r\<lparr>error := Some ''Could not connect to any MX server''\<rparr>, st1)
                 else (r, st1)))"
      using assms hl by (auto simp: smtp_handshake_def Let_def split: if_splits flow.splits)
    show ?thesis
    proof (cases f)
      case (Return r)
      with run fl ex show ?thesis by (auto simp: decided_def)
    next
      case (Continue r)
      with run fl ex full[OF Continue] show ?thesis by (auto simp: idle_def split: if_splits)
    qed
  qed
qed

lemma smtp_handshake_skip:
  "policy_skipped dm hosts \<Longrightarrow>
     skipped (fst (smtp_handshake w cfg e dm hosts st)) \<and>
     snd (smtp_handshake w cfg e dm hosts st) = st"
  by (auto simp: smtp_handshake_def policy_skipped_def Let_def)

lemma smtp_handshake_run:
  assumes "\<not> policy_skipped dm hosts"
    and "host_loop w cfg e (take 2 hosts)
           \<lparr>accepted = False, rejected = False, error = None, mx_used = None, skipped = False\<rparr>
           st = (f, st1)"
  shows "smtp_handshake w cfg e dm hosts st
           = (case f of Return r \<Rightarrow> r | Continue r \<Rightarrow> exhausted r, st1)"
  using assms
  by (auto simp: smtp_handshake_def policy_skipped_def Let_def exhausted_def split: flow.splits)

lemma exhausted_error: "error (exhausted r) \<noteq> None \<and> error (exhausted r) \<noteq> Some []"
  by (auto simp: exhausted_def)

lemma exhausted_flags:
  "accepted (exhausted r) = accepted r \<and> rejected (exhausted r) = rejected r \<and>
   skipped (exhausted r) = skipped r"
  by (simp add: exhausted_def)

lemma smtp_handshake_outcome:
  assumes "\<not> policy_skipped dm hosts"
    and "host_loop w cfg e (take 2 hosts)
           \<lparr>accepted = False, rejected = False, error = None, mx_used = None, skipped = False\<rparr>
           st = (f, st1)"
  shows "snd (smtp_handshake w cfg e dm hosts st) = st1 \<and>
         (case f of
            Return r \<Rightarrow>
              fst (smtp_handshake w cfg e dm hosts st) = r \<and>
              accepted r \<noteq> rejected r \<and> \<not> skipped r
          | Continue r \<Rightarrow>
              fst (smtp_handshake w cfg e dm hosts st) = exhausted r \<and>
              \<not> accepted (fst (smtp_handshake w cfg e dm hosts st)) \<and>
              \<not> rejected (fst (smtp_handshake w cfg e dm hosts st)) \<and>
              \<not> skipped (fst (smtp_handshake w cfg e dm hosts st)) \<and>
              error (fst (smtp_handshake w cfg e dm hosts st)) \<noteq> None \<and>
              error (fst (smtp_handshake w cfg e dm hosts st)) \<noteq> Some [])"
proof -
  let ?r0 = "\<lparr>accepted = False, rejected = False, error = None, mx_used = None, skipped = False\<rparr>"
  have "idle ?r0" by (simp add: idle_def)
  from host_loop_flags[OF this, of w cfg e "take 2 hosts" st] assms(2)
  have fl: "(case f of Return r' \<Rightarrow> decided r' | Continue r' \<Rightarrow> idle r')" by simp
  note run = smtp_handshake_run[OF assms]
  show ?thesis
  proof (cases f)
    case (Return r)
    with run fl show ?thesis by (simp add: decided_def)
  next
    case (Continue r)
    with run fl exhausted_error[of r] exhausted_flags[of r] show ?thesis
      by (simp add: idle_def)
  qed
qed

text \<open>
  Claim C2, amended. Take a host whose session answers \<open>RCPT TO\<close> with \<open>code\<close>. If the
  \<open>QUIT\<close> that follows completes, the host loop does this with the code: 250 or 251,
  it stops with \<open>accepted\<close>; 550 or 553, it stops with \<open>rejected\<close> and the reason
  \<open>Mailbox does not exist\<close>; 450 or 451, it records the reason and the host and goes on
  with the next host; 421, it records the reason and goes on; any other code from 500 to
  599, it stops with \<open>rejected\<close>; any other code, it records an unexpected response and
  goes on. If \<open>QUIT\<close> raises, the code is not looked at: the handler of the exception
  runs and the loop goes on with the next host. The sessions a handshake opens are with a
  prefix of the first two hosts, and a handshake that ends with none of \<open>accepted\<close>,
  \<open>rejected\<close>, \<open>skipped\<close> has tried both and carries a non-empty error reason.
  Conversely, when no policy check skips the probe: if the loop over the first two hosts
  stops at a host, the handshake returns that host's outcome, accepted or rejected and not
  both; if the loop runs to its end, the handshake returns the inconclusive outcome, with
  \<open>accepted\<close>, \<open>rejected\<close> and \<open>skipped\<close> all false and a non-empty error reason. When
  a policy check applies, the outcome is \<open>skipped\<close> and no session is opened.
\<close>

theorem rcpt_reply_classification:
  "(rcpt_answered s code message \<and> quit_r s = None \<and>
    smtp w (length (trace st)) h (''verify@'' @ sender_domain cfg) e = s \<longrightarrow>
      host_loop w cfg e (h # hs) r st =
        (if code = 250 \<or> code = 251 then
           (Return (r\<lparr>accepted := True, mx_used := Some h\<rparr>), emit (SmtpOpen h) st)
         else if code = 550 \<or> code = 553 then
           (Return (r\<lparr>rejected := True, error := Some ''Mailbox does not exist'',
                      mx_used := Some h\<rparr>), emit (SmtpOpen h) st)
         else if code = 450 \<or> code = 451 then
           host_loop w cfg e hs
             (r\<lparr>error := Some ''Temporarily unavailable (greylisted)'', mx_used := Some h\<rparr>)
             (emit (SmtpOpen h) st)
         else if code = 421 then
           host_loop w cfg e hs (r\<lparr>error := Some ''Service unavailable''\<rparr>)
             (emit (SmtpOpen h) st)
         else if 500 \<le> code \<and> code < 600 then
           (Return (r\<lparr>rejected := True,
                      error := Some (''Permanent SMTP error: '' @ str_int code),
                      mx_used := Some h\<rparr>), emit (SmtpOpen h) st)
         else
           host_loop w cfg e hs
             (r\<lparr>error := Some (''Unexpected response: '' @ str_int code @ '' '' @ message)\<rparr>)
             (emit (SmtpOpen h) st))) \<and>
   (rcpt_answered t code' message' \<and> quit_r t = Some x \<and>
    smtp w' (length (trace st0)) h' (''verify@'' @ sender_domain cfg) e = t \<longrightarrow>
      host_loop w' cfg e (h' # hs') r' st0 =
        host_loop w' cfg e hs' (inner_except x r') (emit (SmtpOpen h') st0)) \<and>
   (smtp_handshake w cfg e dm hosts st = (res, st') \<longrightarrow>
      (\<exists>k \<le> 2. trace st' = trace st @ map SmtpOpen (take k hosts)) \<and>
      (\<not> accepted res \<and> \<not> rejected res \<and> \<not> skipped res \<longrightarrow>
         trace st' = trace st @ map SmtpOpen (take 2 hosts) \<and>
         error res \<noteq> None \<and> error res \<noteq> Some [])) \<and>
   (\<not> policy_skipped dm hosts \<and>
    host_loop w cfg e (take 2 hosts)
      \<lparr>accepted = False, rejected = False, error = None, mx_used = None, skipped = False\<rparr>
      st = (f, st1) \<longrightarrow>
      snd (smtp_handshake w cfg e dm hosts st) = st1 \<and>
      (case f of
         Return r1 \<Rightarrow>
           fst (smtp_handshake w cfg e dm hosts st) = r1 \<and>
           accepted r1 \<noteq> rejected r1 \<and> \<not> skipped r1
       | Continue r1 \<Rightarrow>
           fst (smtp_handshake w cfg e dm hosts st) = exhausted r1 \<and>
           \<not> accepted (fst (smtp_handshake w cfg e dm hosts st)) \<and>
           \<not> rejected (fst (smtp_handshake w cfg e dm hosts st)) \<and>
           \<not> skipped (fst (smtp_handshake w cfg e dm hosts st)) \<and>
           error (fst (smtp_handshake w cfg e dm hosts st)) \<noteq> None \<and>
           error (fst (smtp_handshake w cfg e dm hosts st)) \<noteq> Some [])) \<and>
   (policy_skipped dm' hosts' \<longrightarrow>
      skipped (fst (smtp_handshake w cfg e dm' hosts' st)) \<and>
      snd (smtp_handshake w cfg e dm' hosts' st) = st)"
proof (intro conjI impI)
  assume a: "rcpt_answered s code message \<and> quit_r s = None \<and>
    smtp w (length (trace st)) h (''verify@'' @ sender_domain cfg) e = s"
  then have "try_host (smtp w (length (trace st)) h (''verify@'' @ sender_domain cfg) e) h r =
        interpret_response code message h r"
    using try_host_answered[of s code message h r] by simp
  then show "host_loop w cfg e (h # hs) r st =
        (if code = 250 \<or> code = 251 then
           (Return (r\<lparr>accepted := True, mx_used := Some h\<rparr>), emit (SmtpOpen h) st)
         else if code = 550 \<or> code = 553 then
           (Return (r\<lparr>rejected := True, error := Some ''Mailbox does not exist'',
                      mx_used := Some h\<rparr>), emit (SmtpOpen h) st)
         else if code = 450 \<or> code = 451 then
           host_loop w cfg e hs
             (r\<lparr>error := Some ''Temporarily unavailable (greylisted)'', mx_used := Some h\<rparr>)
             (emit (SmtpOpen h) st)
         else if code = 421 then
           host_loop w cfg e hs (r\<lparr>error := Some ''Service unavailable''\<rparr>)
             (emit (SmtpOpen h) st)
         else if 500 \<le> code \<and> code < 600 then
           (Return (r\<lparr>rejected := True,
                      error := Some (''Permanent SMTP error: '' @ str_int code),
                      mx_used := Some h\<rparr>), emit (SmtpOpen h) st)
         else
           host_loop w cfg e hs
             (r\<lparr>error := Some (''Unexpected response: '' @ str_int code @ '' '' @ message)\<rparr>)
             (emit (SmtpOpen h) st))"
    by (simp add: Let_def interpret_response_def)
next
  assume a: "rcpt_answered t code' message' \<and> quit_r t = Some x \<and>
    smtp w' (length (trace st0)) h' (''verify@'' @ sender_domain cfg) e = t"
  then have "try_host (smtp w' (length (trace st0)) h' (''verify@'' @ sender_domain cfg) e) h' r' =
        Continue (inner_except x r')"
    using try_host_quit_raises[of t code' message' x h' r'] by simp
  then show "host_loop w' cfg e (h' # hs') r' st0 =
        host_loop w' cfg e hs' (inner_except x r') (emit (SmtpOpen h') st0)"
    by (simp add: Let_def)
next
  assume "smtp_handshake w cfg e dm hosts st = (res, st')"
  from smtp_handshake_attempts[OF this]
  show "\<exists>k \<le> 2. trace st' = trace st @ map SmtpOpen (take k hosts)" by blast
next
  assume "smtp_handshake w cfg e dm hosts st = (res, st')"
    and "\<not> accepted res \<and> \<not> rejected res \<and> \<not> skipped res"
  with smtp_handshake_attempts[of w cfg e dm hosts st res st']
  show "trace st' = trace st @ map SmtpOpen (take 2 hosts)" by blast
next
  assume "smtp_handshake w cfg e dm hosts st = (res, st')"
    and "\<not> accepted res \<and> \<not> rejected res \<and> \<not> skipped res"
  with smtp_handshake_attempts[of w cfg e dm hosts st res st']
  show "error res \<noteq> None" by blast
next
  assume "smtp_handshake w cfg e dm hosts st = (res, st')"
    and "\<not> accepted res \<and> \<not> rejected res \<and> \<not> skipped res"
  with smtp_handshake_attempts[of w cfg e dm hosts st res st']
  show "error res \<noteq> Some []" by blast
next
  assume a: "\<not> policy_skipped dm hosts \<and>
    host_loop w cfg e (take 2 hosts)
      \<lparr>accepted = False, rejected = False, error = None, mx_used = None, skipped = False\<rparr>
      st = (f, st1)"
  then show "snd (smtp_handshake w cfg e dm hosts st) = st1"
    using smtp_handshake_outcome[of dm hosts w cfg e st f st1] by blast
next
  assume a: "\<not> policy_skipped dm hosts \<and>
    host_loop w cfg e (take 2 hosts)
      \<lparr>accepted = False, rejected = False, error = None, mx_used = None, skipped = False\<rparr>
      st = (f, st1)"
  then show "case f of
         Return r1 \<Rightarrow>
           fst (smtp_handshake w cfg e dm hosts st) = r1 \<and>
           accepted r1 \<noteq> rejected r1 \<and> \<not> skipped r1
       | Continue r1 \<Rightarrow>
           fst (smtp_handshake w cfg e dm hosts st) = exhausted r1 \<and>
           \<not> accepted (fst (smtp_handshake w cfg e dm hosts st)) \<and>
           \<not> rejected (fst (smtp_handshake w cfg e dm hosts st)) \<and>
           \<not> skipped (fst (smtp_handshake w cfg e dm hosts st)) \<and>
           error (fst (smtp_handshake w cfg e dm hosts st)) \<noteq> None \<and>
           error (fst (smtp_handshake w cfg e dm hosts st)) \<noteq> Some []"
    using smtp_handshake_outcome[of dm hosts w cfg e st f st1] by blast
next
  assume "policy_skipped dm' hosts'"
  from smtp_handshake_skip[OF this, of w cfg e st]
  show "skipped (fst (smtp_handshake w cfg e dm' hosts' st))"
    and "snd (smtp_handshake w cfg e dm' hosts' st) = st" by blast+
qed

theorem rcpt_reply_classification_witness:
  "host_loop (sample_world (sample_session 421 None) no_txt) sample_config ''jo@example.org''
        [''mx1.example.org'', ''mx2.example.org'']
        \<lparr>accepted = False, rejected = False, error = None, mx_used = None, skipped = False\<rparr>
        empty_state
     = host_loop (sample_world (sample_session 421 None) no_txt) sample_config ''jo@example.org''
        [''mx2.example.org'']
        \<lparr>accepted = False, rejected = False, error = Some ''Service unavailable'',
          mx_used = None, skipped = False\<rparr>
        (emit (SmtpOpen ''mx1.example.org'') empty_state) \<and>
   host_loop (sample_world (sample_session 250 (Some (SocketTimeout ''timed out''))) no_txt)
        sample_config ''jo@example.org'' [''mx1.example.org'']
        \<lparr>accepted = False, rejected = False, error = None, mx_used = None, skipped = False\<rparr>
        empty_state
     = (Continue \<lparr>accepted = False, rejected = False, error = Some ''Connection timeout'',
                  mx_used = None, skipped = False\<rparr>,
        emit (SmtpOpen ''mx1.example.org'') empty_state) \<and>
   trace (snd (smtp_handshake (sample_world (sample_session 421 None) no_txt) sample_config
          ''jo@example.org'' ''example.org''
          [''mx1.example.org'', ''mx2.example.org'', ''mx3.example.org''] empty_state))
     = [SmtpOpen ''mx1.example.org'', SmtpOpen ''mx2.example.org''] \<and>
   error (fst (smtp_handshake (sample_world (sample_session 421 None) no_txt) sample_config
          ''jo@example.org'' ''example.org''
          [''mx1.example.org'', ''mx2.example.org'', ''mx3.example.org''] empty_state))
     = Some ''Service unavailable'' \<and>
   fst (smtp_handshake (sample_world (sample_session 421 None) no_txt) sample_config
          ''jo@example.org'' ''example.org''
          [''mx1.example.org'', ''mx2.example.org'', ''mx3.example.org''] empty_state)
     = exhausted \<lparr>accepted = False, rejected = False, error = Some ''Service unavailable'',
                   mx_used = None, skipped = False\<rparr> \<and>
   \<not> skipped (fst (smtp_handshake (sample_world (sample_session 421 None) no_txt) sample_config
          ''jo@example.org'' ''example.org''
          [''mx1.example.org'', ''mx2.example.org'', ''mx3.example.org''] empty_state)) \<and>
   skipped (fst (smtp_handshake (sample_world (sample_session 421 None) no_txt) sample_config
          ''jo@example.org'' ''mail.gmail.com'' [''mx1.example.org''] empty_state))"
proof -
  let ?r0 = "\<lparr>accepted = False, rejected = False, error = None, mx_used = None, skipped = False\<rparr>"
  let ?w2 = "sample_world (sample_session 250 (Some (SocketTimeout ''timed out''))) no_txt"
  let ?w3 = "sample_world (sample_session 421 None) no_txt"
  let ?hs = "[''mx1.example.org'', ''mx2.example.org'', ''mx3.example.org'']"
  let ?v = "smtp_handshake ?w3 sample_config ''jo@example.org'' ''example.org'' ?hs empty_state"
  have a1: "rcpt_answered (sample_session 421 None) 421 ''reply'' \<and>
            quit_r (sample_session 421 None) = None \<and>
            smtp ?w3 (length (trace empty_state)) ''mx1.example.org''
              (''verify@'' @ sender_domain sample_config) ''jo@example.org'' = sample_session 421 None"
    by (simp add: rcpt_answered_def sample_session_def sample_world_def)
  have a2: "rcpt_answered (sample_session 250 (Some (SocketTimeout ''timed out''))) 250 ''reply'' \<and>
            quit_r (sample_session 250 (Some (SocketTimeout ''timed out''))) = Some (SocketTimeout ''timed out'') \<and>
            smtp ?w2 (length (trace empty_state)) ''mx1.example.org''
              (''verify@'' @ sender_domain sample_config) ''jo@example.org''
              = sample_session 250 (Some (SocketTimeout ''timed out''))"
    by (simp add: rcpt_answered_def sample_session_def sample_world_def)
  let ?hl = "host_loop ?w3 sample_config ''jo@example.org'' (take 2 ?hs) ?r0 empty_state"
  let ?done = "\<lparr>accepted = False, rejected = False, error = Some ''Service unavailable'',
             mx_used = None, skipped = False\<rparr>"
  have b1: "\<not> policy_skipped ''example.org'' ?hs" by code_simp
  have b2: "?hl = (fst ?hl, snd ?hl)" by simp
  have b3: "fst ?hl = Continue ?done" by code_simp
  have a3: "?v = (fst ?v, snd ?v)" by simp
  have a4: "fst ?v = \<lparr>accepted = False, rejected = False, error = Some ''Service unavailable'',
                      mx_used = None, skipped = False\<rparr>" by code_simp
  note th = rcpt_reply_classification[of "sample_session 421 None" 421 "''reply''" ?w3 empty_state
      "''mx1.example.org''" sample_config "''jo@example.org''" "[''mx2.example.org'']" ?r0
      "sample_session 250 (Some (SocketTimeout ''timed out''))" 250 "''reply''"
      "SocketTimeout ''timed out''" ?w2 empty_state "''mx1.example.org''" "[]" ?r0
      "''example.org''" ?hs "fst ?v" "snd ?v" "fst ?hl" "snd ?hl"
      "''mail.gmail.com''" "[''mx1.example.org'']"]
  from th a1 have "host_loop ?w3 sample_config ''jo@example.org''
          [''mx1.example.org'', ''mx2.example.org''] ?r0 empty_state
        = host_loop ?w3 sample_config ''jo@example.org'' [''mx2.example.org'']
            (?r0\<lparr>error := Some ''Service unavailable''\<rparr>)
            (emit (SmtpOpen ''mx1.example.org'') empty_state)"
    by (simp only: if_True if_False simp_thms rel_simps)
  then have q1: "host_loop ?w3 sample_config ''jo@example.org''
          [''mx1.example.org'', ''mx2.example.org''] ?r0 empty_state
        = host_loop ?w3 sample_config ''jo@example.org'' [''mx2.example.org'']
            \<lparr>accepted = False, rejected = False, error = Some ''Service unavailable'',
              mx_used = None, skipped = False\<rparr>
            (emit (SmtpOpen ''mx1.example.org'') empty_state)"
    by simp
  from th a2 have "host_loop ?w2 sample_config ''jo@example.org'' [''mx1.example.org''] ?r0
          empty_state
        = host_loop ?w2 sample_config ''jo@example.org'' []
            (inner_except (SocketTimeout ''timed out'') ?r0)
            (emit (SmtpOpen ''mx1.example.org'') empty_state)"
    by (simp only: simp_thms)
  then have q3: "host_loop ?w2 sample_config ''jo@example.org'' [''mx1.example.org''] ?r0
          empty_state
     = (Continue \<lparr>accepted = False, rejected = False, error = Some ''Connection timeout'',
                  mx_used = None, skipped = False\<rparr>,
        emit (SmtpOpen ''mx1.example.org'') empty_state)"
    by simp
  from a4 have a5: "\<not> accepted (fst ?v) \<and> \<not> rejected (fst ?v) \<and> \<not> skipped (fst ?v)"
    by simp
  from th a3 a5 have "trace (snd ?v) = trace empty_state @ map SmtpOpen (take 2 ?hs)"
    by blast
  then have q4: "trace (snd ?v) = [SmtpOpen ''mx1.example.org'', SmtpOpen ''mx2.example.org'']"
    by (simp add: empty_state_def)
  from a4 have q5: "error (fst ?v) = Some ''Service unavailable''" by simp
  from th b1 b2 have "case fst ?hl of
         Return r1 \<Rightarrow> fst ?v = r1 \<and> accepted r1 \<noteq> rejected r1 \<and> \<not> skipped r1
       | Continue r1 \<Rightarrow>
           fst ?v = exhausted r1 \<and> \<not> accepted (fst ?v) \<and> \<not> rejected (fst ?v) \<and>
           \<not> skipped (fst ?v) \<and> error (fst ?v) \<noteq> None \<and> error (fst ?v) \<noteq> Some []"
    by blast
  then have c: "fst ?v = exhausted ?done \<and> \<not> accepted (fst ?v) \<and> \<not> rejected (fst ?v) \<and>
           \<not> skipped (fst ?v) \<and> error (fst ?v) \<noteq> None \<and> error (fst ?v) \<noteq> Some []"
    unfolding b3 flow.case .
  from c have q6: "fst ?v = exhausted ?done" by (rule conjunct1)
  from c have q7: "\<not> skipped (fst ?v)" by blast
  have b4: "policy_skipped ''mail.gmail.com'' [''mx1.example.org'']" by code_simp
  from th b4 have q8: "skipped (fst (smtp_handshake ?w3 sample_config ''jo@example.org''
          ''mail.gmail.com'' [''mx1.example.org''] empty_state))" by blast
  from q7 q8 have q78: "\<not> skipped (fst ?v) \<and>
      skipped (fst (smtp_handshake ?w3 sample_config ''jo@example.org''
          ''mail.gmail.com'' [''mx1.example.org''] empty_state))" by (rule conjI)
  from q6 q78 have q67: "fst ?v = exhausted ?done \<and> \<not> skipped (fst ?v) \<and>
      skipped (fst (smtp_handshake ?w3 sample_config ''jo@example.org''
          ''mail.gmail.com'' [''mx1.example.org''] empty_state))" by (rule conjI)
  from q5 q67 have q567: "error (fst ?v) = Some ''Service unavailable'' \<and>
      fst ?v = exhausted ?done \<and> \<not> skipped (fst ?v) \<and>
      skipped (fst (smtp_handshake ?w3 sample_config ''jo@example.org''
          ''mail.gmail.com'' [''mx1.example.org''] empty_state))" by (rule conjI)
  from q4 q567 have q4567: "trace (snd ?v) = [SmtpOpen ''mx1.example.org'', SmtpOpen ''mx2.example.org''] \<and>
      error (fst ?v) = Some ''Service unavailable'' \<and>
      fst ?v = exhausted ?done \<and> \<not> skipped (fst ?v) \<and>
      skipped (fst (smtp_handshake ?w3 sample_config ''jo@example.org''
          ''mail.gmail.com'' [''mx1.example.org''] empty_state))" by (rule conjI)
  from q3 q4567 have q34567: "host_loop ?w2 sample_config ''jo@example.org'' [''mx1.example.org''] ?r0
          empty_state
     = (Continue \<lparr>accepted = False, rejected = False, error = Some ''Connection timeout'',
                  mx_used = None, skipped = False\<rparr>,
        emit (SmtpOpen ''mx1.example.org'') empty_state) \<and>
      trace (snd ?v) = [SmtpOpen ''mx1.example.org'', SmtpOpen ''mx2.example.org''] \<and>
      error (fst ?v) = Some ''Service unavailable'' \<and>
      fst ?v = exhausted ?done \<and> \<not> skipped (fst ?v) \<and>
      skipped (fst (smtp_handshake ?w3 sample_config ''jo@example.org''
          ''mail.gmail.com'' [''mx1.example.org''] empty_state))" by (rule conjI)
  from q1 q34567 show ?thesis by (rule conjI)
qed

text \<open>
  Claim C2 as stated fails: \<open>server.quit()\<close> runs between \<open>RCPT TO\<close> and the
  interpretation of its reply. Here the only host answers \<open>RCPT TO\<close> with 250 and then
  drops the connection during \<open>QUIT\<close>; the handler of \<open>SMTPServerDisconnected\<close>
  continues, and the address is not accepted.
\<close>

theorem quit_failure_counterexample:
  "rcpt_r (smtp (sample_world (sample_session 250 (Some (SMTPServerDisconnected ''closed''))) no_txt)
             0 ''mx1.example.org'' ''verify@probe.example.net'' ''jo@example.org'')
     = Inr (250, ''reply'') \<and>
   fst (smtp_handshake (sample_world (sample_session 250 (Some (SMTPServerDisconnected ''closed''))) no_txt)
          sample_config ''jo@example.org'' ''example.org'' [''mx1.example.org''] empty_state)
     = \<lparr>accepted = False, rejected = False,
        error = Some ''Could not connect to any MX server'', mx_used = None, skipped = False\<rparr>"
  by code_simp

section \<open>Properties of the finder\<close>

subsection \<open>The early stop\<close>

lemma halt_snoc:
  "halt mr (results @ [f]) = (8 / 10 \<le> f_confidence f \<and> mr \<le> int (length results) + 1)"
  by (auto simp: halt_def)

lemma probe_loop_refines:
  "\<not> halt mr results \<Longrightarrow>
     probe_loop verify mr es results st = probe_spec verify mr es results st"
proof (induction es arbitrary: results st)
  case Nil
  show ?case by simp
next
  case (Cons e es)
  obtain outcome st' where v: "verify st e = (outcome, st')" by fastforce
  show ?case
  proof (cases outcome)
    case (Inl err)
    with v Cons show ?thesis by (simp add: collect_def)
  next
    case (Inr ver)
    show ?thesis
    proof (cases "collectible ver")
      case False
      with v Inr Cons show ?thesis by (simp add: collect_def)
    next
      case True
      show ?thesis
      proof (cases "halt mr (results @ [finding_of e ver])")
        case h: True
        with v Inr True show ?thesis
          by (auto simp: collect_def halt_snoc finding_of_def Let_def)
      next
        case h: False
        from Cons.IH[OF h] v Inr True h show ?thesis
          by (auto simp: collect_def halt_snoc finding_of_def Let_def)
      qed
    qed
  qed
qed

lemma slice_to_one: "slice_to 1 [x] = [x]"
  by (simp add: slice_to_def)

text \<open>
  Claim C3. On every candidate list, with every cap and every verifier, the probing loop
  of \<open>find_best_emails\<close> returns what \<open>probe_spec\<close> returns, results and final state:
  it goes on to the next candidate exactly as long as the rule "count has reached
  \<open>max_results\<close> and the last collected result has confidence at least 0.8" does not
  hold. With \<open>max_results = 1\<close> and a first candidate that is collectible with confidence
  0.9, the loop ends in the state right after that one verification, and the single
  result is returned after sorting and truncation.
\<close>

theorem early_stop_rule:
  "probe_loop verify max_results candidates [] st
     = probe_spec verify max_results candidates [] st \<and>
   (verify st e = (Inr v, st') \<and> collectible v \<and> confidence v = 9 / 10 \<longrightarrow>
      probe_loop verify 1 (e # rest) [] st = ([finding_of e v], st') \<and>
      select_best verify 1 (e # rest) st = ([finding_of e v], st'))"
proof (intro conjI impI)
  show "probe_loop verify max_results candidates [] st
          = probe_spec verify max_results candidates [] st"
    by (rule probe_loop_refines) (simp add: halt_def)
next
  assume a: "verify st e = (Inr v, st') \<and> collectible v \<and> confidence v = 9 / 10"
  then show l: "probe_loop verify 1 (e # rest) [] st = ([finding_of e v], st')" by simp
  then show "select_best verify 1 (e # rest) st = ([finding_of e v], st')"
    by (simp add: select_best_def slice_to_one)
qed

theorem early_stop_rule_witness:
  "select_best (counting_verifier (9 / 10)) 1
     [''john.doe@example.org'', ''johndoe@example.org'', ''jdoe@example.org''] 0
   = ([\<lparr>f_email = ''john.doe@example.org'', f_status = ''valid'', f_confidence = 9 / 10,
        f_reason = ''Email verified and deliverable''\<rparr>], Suc 0)"
proof -
  let ?v = "\<lparr>email = ''john.doe@example.org'', status = ''valid'', confidence = 9 / 10,
             reason = ''Email verified and deliverable'', details = empty_details\<rparr>"
  have h: "counting_verifier (9 / 10) 0 ''john.doe@example.org'' = (Inr ?v, Suc 0) \<and>
           collectible ?v \<and> confidence ?v = 9 / 10"
    by (simp add: counting_verifier_def collectible_def)
  from early_stop_rule[of "counting_verifier (9 / 10)" 1 "[]" 0 "''john.doe@example.org''" ?v
         "Suc 0" "[''johndoe@example.org'', ''jdoe@example.org'']"] h
  show ?thesis by (simp add: finding_of_def)
qed

subsection \<open>The prioritised order\<close>














subsection \<open>The generated candidates\<close>

lemma add_distinct: "distinct ps \<Longrightarrow> distinct (add dm p ps)"
  by (simp add: add_def Let_def)

lemma add_nonempty: "ps \<noteq> [] \<or> p \<noteq> [] \<Longrightarrow> add dm p ps \<noteq> []"
  by (auto simp: add_def Let_def)

lemma add_at_domain:
  "\<forall>e \<in> set ps. suffix (''@'' @ dm) e \<Longrightarrow> CHR ''@'' \<notin> set p \<Longrightarrow>
     \<forall>e \<in> set (add dm p ps). suffix (''@'' @ dm) e"
  by (auto simp: add_def Let_def suffix_def)

lemma add_all_distinct: "distinct ps \<Longrightarrow> distinct (add_all dm qs ps)"
  unfolding add_all_def by (induction qs arbitrary: ps) (simp_all add: add_distinct)

lemma add_all_nonempty: "ps \<noteq> [] \<Longrightarrow> add_all dm qs ps \<noteq> []"
  unfolding add_all_def by (induction qs arbitrary: ps) (simp_all add: add_nonempty)

lemma add_all_nonempty_head: "q \<noteq> [] \<Longrightarrow> add_all dm (q # qs) ps \<noteq> []"
  using add_all_nonempty[of "add dm q ps" dm qs] add_nonempty[of ps q dm]
  by (simp add: add_all_def)

lemma add_all_at_domain:
  "\<forall>e \<in> set ps. suffix (''@'' @ dm) e \<Longrightarrow> \<forall>q \<in> set qs. CHR ''@'' \<notin> set q \<Longrightarrow>
     \<forall>e \<in> set (add_all dm qs ps). suffix (''@'' @ dm) e"
  unfolding add_all_def
proof (induction qs arbitrary: ps)
  case Nil
  then show ?case by simp
next
  case (Cons q qs)
  from add_at_domain[OF Cons.prems(1), of q] Cons.prems(2)
  have "\<forall>e \<in> set (add dm q ps). suffix (''@'' @ dm) e" by simp
  from Cons.IH[OF this] Cons.prems(2) show ?case by simp
qed

lemma add_templates_ok:
  "\<forall>t \<in> set ts. format_py xf t tokens \<noteq> FormatError \<Longrightarrow>
     \<exists>ps'. add_templates xf tokens dm ts ps = Inr ps' \<and>
       (distinct ps \<longrightarrow> distinct ps') \<and> (ps \<noteq> [] \<longrightarrow> ps' \<noteq> []) \<and>
       ((\<forall>t \<in> set ts. \<forall>p. format_py xf t tokens = Formatted p \<longrightarrow> CHR ''@'' \<notin> set p) \<and>
        (\<forall>e \<in> set ps. suffix (''@'' @ dm) e) \<longrightarrow> (\<forall>e \<in> set ps'. suffix (''@'' @ dm) e))"
proof (induction ts arbitrary: ps)
  case Nil
  then show ?case by simp
next
  case (Cons t ts)
  from Cons.prems have rest: "\<forall>t \<in> set ts. format_py xf t tokens \<noteq> FormatError" by simp
  show ?case
  proof (cases "format_py xf t tokens")
    case (Formatted p)
    from Cons.IH[OF rest, of "add dm p ps"] obtain ps' where ps':
      "add_templates xf tokens dm ts (add dm p ps) = Inr ps'"
      "distinct (add dm p ps) \<longrightarrow> distinct ps'" "add dm p ps \<noteq> [] \<longrightarrow> ps' \<noteq> []"
      "(\<forall>t \<in> set ts. \<forall>p. format_py xf t tokens = Formatted p \<longrightarrow> CHR ''@'' \<notin> set p) \<and>
        (\<forall>e \<in> set (add dm p ps). suffix (''@'' @ dm) e) \<longrightarrow> (\<forall>e \<in> set ps'. suffix (''@'' @ dm) e)"
      by blast
    have "add_templates xf tokens dm (t # ts) ps = Inr ps'" using Formatted ps'(1) by simp
    moreover have "distinct ps \<longrightarrow> distinct ps'" using ps'(2) add_distinct by blast
    moreover have "ps \<noteq> [] \<longrightarrow> ps' \<noteq> []" using ps'(3) add_nonempty by blast
    moreover have "(\<forall>t \<in> set (t # ts). \<forall>p. format_py xf t tokens = Formatted p \<longrightarrow> CHR ''@'' \<notin> set p) \<and>
        (\<forall>e \<in> set ps. suffix (''@'' @ dm) e) \<longrightarrow> (\<forall>e \<in> set ps'. suffix (''@'' @ dm) e)"
    proof
      assume a: "(\<forall>t \<in> set (t # ts). \<forall>p. format_py xf t tokens = Formatted p \<longrightarrow> CHR ''@'' \<notin> set p) \<and>
        (\<forall>e \<in> set ps. suffix (''@'' @ dm) e)"
      then have "CHR ''@'' \<notin> set p" using Formatted by simp
      with a have "\<forall>e \<in> set (add dm p ps). suffix (''@'' @ dm) e"
        using add_at_domain by blast
      with a ps'(4) show "\<forall>e \<in> set ps'. suffix (''@'' @ dm) e" by simp
    qed
    ultimately show ?thesis by blast
  next
    case KeyError
    from Cons.IH[OF rest, of ps] KeyError show ?thesis by auto
  next
    case FormatError
    with Cons.prems show ?thesis by simp
  qed
qed

lemma default_formats:
  "map (\<lambda>t. format_py xf t (tokens_of f l d)) DEFAULT_PATTERN_TEMPLATES =
     map Formatted
       [f @ ''.'' @ l, f @ ''_'' @ l, f @ ''-'' @ l, f @ l, f @ take 1 l, take 1 f @ l,
        take 1 f @ ''.'' @ l, f @ ''.'' @ take 1 l, l @ ''.'' @ f, l @ ''_'' @ f, l @ f,
        take 1 f @ take 1 l @ l, f @ l @ take 1 f, f @ l @ take 1 l, l @ f @ take 1 l,
        take 1 f @ l @ ''12'', f @ l @ ''12'', take 1 f @ take 1 l @ ''12'']"
  by (simp add: DEFAULT_PATTERN_TEMPLATES_def format_py_def tokens_of_def is_digit_def
        field_special_def)


lemma no_at_take: "c \<notin> set xs \<Longrightarrow> c \<notin> set (take n xs)"
  by (auto dest: in_set_takeD)

lemma default_templates_ok:
  assumes "t \<in> set DEFAULT_PATTERN_TEMPLATES"
  shows "format_py xf t (tokens_of f l d) \<noteq> FormatError \<and>
         (CHR ''@'' \<notin> set f \<and> CHR ''@'' \<notin> set l \<longrightarrow>
            (\<forall>p. format_py xf t (tokens_of f l d) = Formatted p \<longrightarrow> CHR ''@'' \<notin> set p))"
proof -
  from assms have "format_py xf t (tokens_of f l d)
      \<in> set (map (\<lambda>t. format_py xf t (tokens_of f l d)) DEFAULT_PATTERN_TEMPLATES)"
    by simp
  then show ?thesis
    unfolding default_formats by (auto simp: no_at_take)
qed

lemma no_at_drop: "c \<notin> set xs \<Longrightarrow> c \<notin> set (drop n xs)"
  by (auto dest: in_set_dropD)

lemma no_at_take_drop: "c \<notin> set xs \<Longrightarrow> c \<notin> set (take m (drop n xs))"
  by (auto dest: in_set_takeD in_set_dropD)

lemma sweeps_no_at:
  assumes "CHR ''@'' \<notin> set f" and "CHR ''@'' \<notin> set l"
  shows "\<forall>q \<in> set (suffix_sweep f l). CHR ''@'' \<notin> set q"
    and "\<forall>q \<in> set (separator_sweep f l). CHR ''@'' \<notin> set q"
    and "\<forall>q \<in> set (tail_patterns f l). CHR ''@'' \<notin> set q"
proof -
  note na = assms no_at_take[OF assms(1)] no_at_take[OF assms(2)] no_at_drop[OF assms(1)]
    no_at_drop[OF assms(2)] no_at_take_drop[OF assms(1)]
  show "\<forall>q \<in> set (suffix_sweep f l). CHR ''@'' \<notin> set q"
    by (simp add: suffix_sweep_def base_tokens_def NUMERIC_SUFFIXES_def na)
  show "\<forall>q \<in> set (separator_sweep f l). CHR ''@'' \<notin> set q"
    by (simp add: separator_sweep_def SEPARATORS_def na)
  show "\<forall>q \<in> set (tail_patterns f l). CHR ''@'' \<notin> set q"
    by (auto simp: tail_patterns_def na)
qed

lemma suffix_sweep_head: "\<exists>qs. suffix_sweep f l = (f @ ''.'' @ l @ ''1'') # qs"
  by (simp add: suffix_sweep_def base_tokens_def NUMERIC_SUFFIXES_def)

text \<open>
  Claim C5, amended. When the normalised first name, last name and domain are non-empty
  and no custom template raises anything but \<open>KeyError\<close>, \<open>generate_patterns\<close> returns
  a list, the list is non-empty and has no duplicates; and when neither normalised name
  holds an \<open>@\<close> and no custom template expands to a string with an \<open>@\<close>, every address
  ends in \<open>@\<close> followed by the normalised domain.
\<close>

theorem generated_patterns_shape:
  assumes "norm_name first_name \<noteq> []" and "norm_name last_name \<noteq> []"
    and "norm_domain domain \<noteq> []"
    and "\<forall>t \<in> set (custom_templates custom).
           format_py xf t (tokens_of (norm_name first_name) (norm_name last_name)
                             (norm_domain domain)) \<noteq> FormatError"
  shows "\<exists>ps. generate_patterns xf first_name last_name domain custom include_defaults = Inr ps \<and>
           ps \<noteq> [] \<and> distinct ps \<and>
           (CHR ''@'' \<notin> set (norm_name first_name) \<and> CHR ''@'' \<notin> set (norm_name last_name) \<and>
            (\<forall>t \<in> set (custom_templates custom). \<forall>p.
               format_py xf t (tokens_of (norm_name first_name) (norm_name last_name)
                                 (norm_domain domain)) = Formatted p \<longrightarrow> CHR ''@'' \<notin> set p)
            \<longrightarrow> (\<forall>e \<in> set ps. suffix (''@'' @ norm_domain domain) e))"
proof -
  define f where "f = norm_name first_name"
  define l where "l = norm_name last_name"
  define d where "d = norm_domain domain"
  define tok where "tok = tokens_of f l d"
  define defaults where "defaults = (if include_defaults then DEFAULT_PATTERN_TEMPLATES else [])"
  define ct where "ct = custom_templates custom"
  have sub: "set defaults \<subseteq> set DEFAULT_PATTERN_TEMPLATES"
    by (auto simp: defaults_def)
  have d_ok: "\<forall>t \<in> set defaults. format_py xf t tok \<noteq> FormatError"
    using default_templates_ok[of _ xf f l d] sub unfolding tok_def by blast
  have d_at: "\<forall>t \<in> set defaults. \<forall>p. format_py xf t tok = Formatted p \<longrightarrow> CHR ''@'' \<notin> set p"
    if "CHR ''@'' \<notin> set f" "CHR ''@'' \<notin> set l"
    using default_templates_ok[of _ xf f l d] sub that unfolding tok_def by blast
  from add_templates_ok[OF d_ok, of d "[]"] obtain p1 where p1:
    "add_templates xf tok d defaults [] = Inr p1" "distinct p1"
    "(\<forall>t \<in> set defaults. \<forall>p. format_py xf t tok = Formatted p \<longrightarrow> CHR ''@'' \<notin> set p)
       \<longrightarrow> (\<forall>e \<in> set p1. suffix (''@'' @ d) e)"
    by auto
  define p2 where "p2 = add_all d (suffix_sweep f l) p1"
  define p3 where "p3 = add_all d (separator_sweep f l) p2"
  define p4 where "p4 = add_all d (tail_patterns f l) p3"
  obtain qs where qs: "suffix_sweep f l = (f @ ''.'' @ l @ ''1'') # qs"
    using suffix_sweep_head by blast
  have "p2 \<noteq> []" unfolding p2_def qs by (rule add_all_nonempty_head) simp
  then have "p3 \<noteq> []" unfolding p3_def by (rule add_all_nonempty)
  then have ne: "p4 \<noteq> []" unfolding p4_def by (rule add_all_nonempty)
  have "distinct p2" unfolding p2_def using p1(2) by (rule add_all_distinct)
  then have "distinct p3" unfolding p3_def by (rule add_all_distinct)
  then have di: "distinct p4" unfolding p4_def by (rule add_all_distinct)
  have at: "\<forall>e \<in> set p4. suffix (''@'' @ d) e"
    if c: "CHR ''@'' \<notin> set f" "CHR ''@'' \<notin> set l"
  proof -
    from p1(3) d_at[OF c] have a1: "\<forall>e \<in> set p1. suffix (''@'' @ d) e" by blast
    have a2: "\<forall>e \<in> set p2. suffix (''@'' @ d) e"
      unfolding p2_def by (rule add_all_at_domain[OF a1 sweeps_no_at(1)[OF c]])
    have a3: "\<forall>e \<in> set p3. suffix (''@'' @ d) e"
      unfolding p3_def by (rule add_all_at_domain[OF a2 sweeps_no_at(2)[OF c]])
    show ?thesis
      unfolding p4_def by (rule add_all_at_domain[OF a3 sweeps_no_at(3)[OF c]])
  qed
  have c_ok: "\<forall>t \<in> set ct. format_py xf t tok \<noteq> FormatError"
    using assms(4) unfolding ct_def tok_def f_def l_def d_def .
  from add_templates_ok[OF c_ok, of d p4] obtain ps where ps:
    "add_templates xf tok d ct p4 = Inr ps"
    "distinct p4 \<longrightarrow> distinct ps" "p4 \<noteq> [] \<longrightarrow> ps \<noteq> []"
    "(\<forall>t \<in> set ct. \<forall>p. format_py xf t tok = Formatted p \<longrightarrow> CHR ''@'' \<notin> set p) \<and>
     (\<forall>e \<in> set p4. suffix (''@'' @ d) e) \<longrightarrow> (\<forall>e \<in> set ps. suffix (''@'' @ d) e)"
    by blast
  have nonempty: "\<not> (f = [] \<or> l = [] \<or> d = [])"
    using assms(1-3) unfolding f_def l_def d_def by simp
  have "generate_patterns xf first_name last_name domain custom include_defaults =
          (if f = [] \<or> l = [] \<or> d = [] then Inr []
           else case add_templates xf tok d defaults [] of
                  Inl err \<Rightarrow> Inl err
                | Inr q1 \<Rightarrow>
                    add_templates xf tok d ct
                      (add_all d (tail_patterns f l)
                         (add_all d (separator_sweep f l)
                            (add_all d (suffix_sweep f l) q1))))"
    unfolding generate_patterns_def Let_def f_def l_def d_def tok_def defaults_def ct_def ..
  also have "\<dots> = add_templates xf tok d ct p4"
    using nonempty p1(1) by (simp add: p2_def p3_def p4_def)
  finally have gen:
    "generate_patterns xf first_name last_name domain custom include_defaults = Inr ps"
    using ps(1) by simp
  have concl: "CHR ''@'' \<notin> set f \<and> CHR ''@'' \<notin> set l \<and>
            (\<forall>t \<in> set ct. \<forall>p. format_py xf t tok = Formatted p \<longrightarrow> CHR ''@'' \<notin> set p)
            \<longrightarrow> (\<forall>e \<in> set ps. suffix (''@'' @ d) e)"
  proof
    assume a: "CHR ''@'' \<notin> set f \<and> CHR ''@'' \<notin> set l \<and>
            (\<forall>t \<in> set ct. \<forall>p. format_py xf t tok = Formatted p \<longrightarrow> CHR ''@'' \<notin> set p)"
    then have "\<forall>e \<in> set p4. suffix (''@'' @ d) e" using at by simp
    with a have "(\<forall>t \<in> set ct. \<forall>p. format_py xf t tok = Formatted p \<longrightarrow> CHR ''@'' \<notin> set p) \<and>
       (\<forall>e \<in> set p4. suffix (''@'' @ d) e)" by (intro conjI) (elim conjE, assumption)+
    with ps(4) show "\<forall>e \<in> set ps. suffix (''@'' @ d) e" by (rule mp)
  qed
  have ne': "ps \<noteq> []" using ne ps(3) by simp
  have di': "distinct ps" using di ps(2) by simp
  show ?thesis
  proof (intro exI[of _ ps] conjI)
    show "generate_patterns xf first_name last_name domain custom include_defaults = Inr ps"
      by (rule gen)
    show "ps \<noteq> []" by (rule ne')
    show "distinct ps" by (rule di')
    show "CHR ''@'' \<notin> set (norm_name first_name) \<and> CHR ''@'' \<notin> set (norm_name last_name) \<and>
            (\<forall>t \<in> set (custom_templates custom). \<forall>p.
               format_py xf t (tokens_of (norm_name first_name) (norm_name last_name)
                                 (norm_domain domain)) = Formatted p \<longrightarrow> CHR ''@'' \<notin> set p)
            \<longrightarrow> (\<forall>e \<in> set ps. suffix (''@'' @ norm_domain domain) e)"
      using concl unfolding f_def l_def d_def tok_def ct_def .
  qed
qed

theorem generated_patterns_shape_witness:
  "\<not> isl (generate_patterns no_extended_format ''John'' '' Doe '' ''X.com''
             [''{first}'', ''{nokey}''] True) \<and>
   projr (generate_patterns no_extended_format ''John'' '' Doe '' ''X.com''
            [''{first}'', ''{nokey}''] True) \<noteq> [] \<and>
   distinct (projr (generate_patterns no_extended_format ''John'' '' Doe '' ''X.com''
                      [''{first}'', ''{nokey}''] True)) \<and>
   filter (\<lambda>e. \<not> suffix ''@x.com'' e)
     (projr (generate_patterns no_extended_format ''John'' '' Doe '' ''X.com''
               [''{first}'', ''{nokey}''] True)) = []"
proof -
  let ?g = "generate_patterns no_extended_format ''John'' '' Doe '' ''X.com''
              [''{first}'', ''{nokey}''] True"
  have n: "norm_name ''John'' = ''john''" "norm_name '' Doe '' = ''doe''"
    "norm_domain ''X.com'' = ''x.com''"
    by code_simp+
  have ct: "custom_templates [''{first}'', ''{nokey}''] = [''{first}'', ''{nokey}'']"
    by code_simp
  have e1: "format_py no_extended_format ''{first}'' (tokens_of ''john'' ''doe'' ''x.com'')
              = Formatted ''john''"
    by code_simp
  have e2: "format_py no_extended_format ''{nokey}'' (tokens_of ''john'' ''doe'' ''x.com'')
              = KeyError"
    by code_simp
  have h1: "norm_name ''John'' \<noteq> []" "norm_name '' Doe '' \<noteq> []" "norm_domain ''X.com'' \<noteq> []"
    by (simp_all add: n)
  have h4: "\<forall>t \<in> set (custom_templates [''{first}'', ''{nokey}'']).
              format_py no_extended_format t
                (tokens_of (norm_name ''John'') (norm_name '' Doe '') (norm_domain ''X.com''))
              \<noteq> FormatError"
    by (simp add: n ct e1 e2)
  have clean: "CHR ''@'' \<notin> set (norm_name ''John'') \<and> CHR ''@'' \<notin> set (norm_name '' Doe '') \<and>
      (\<forall>t \<in> set (custom_templates [''{first}'', ''{nokey}'']). \<forall>p.
          format_py no_extended_format t
            (tokens_of (norm_name ''John'') (norm_name '' Doe '') (norm_domain ''X.com''))
            = Formatted p \<longrightarrow> CHR ''@'' \<notin> set p)"
    by (auto simp: n ct e1 e2)
  from generated_patterns_shape[OF h1 h4, of True] clean
  obtain ps where ps: "?g = Inr ps" "ps \<noteq> []" "distinct ps"
    "\<forall>e \<in> set ps. suffix (''@'' @ norm_domain ''X.com'') e"
    by blast
  from ps(4) have "filter (\<lambda>e. \<not> suffix ''@x.com'' e) ps = []"
    by (simp add: n filter_empty_conv)
  with ps(1-3) show ?thesis by simp
qed

text \<open>
  Claim C5 as stated fails, since \<open>add\<close> takes a pattern that holds an \<open>@\<close> for a
  complete address. A first name \<open>a@b\<close> gives the address \<open>a@b.c\<close>; the custom template
  \<open>{first}@corp.example\<close> gives \<open>john@corp.example\<close>; neither ends in \<open>@x.com\<close>. And the
  custom template \<open>{last}{\<close> raises \<open>ValueError\<close>, which is not caught, so that no list is
  returned.
\<close>

theorem foreign_address_counterexample:
  "norm_name ''a@b'' = ''a@b'' \<and> norm_name ''c'' = ''c'' \<and> norm_domain ''x.com'' = ''x.com'' \<and>
   map_sum id hd (generate_patterns no_extended_format ''a@b'' ''c'' ''x.com'' [] True)
     = Inr ''a@b.c'' \<and>
   \<not> suffix ''@x.com'' ''a@b.c'' \<and>
   map_sum id last
     (generate_patterns no_extended_format ''john'' ''doe'' ''x.com''
        [''{first}@corp.example''] True)
     = Inr ''john@corp.example'' \<and>
   \<not> suffix ''@x.com'' ''john@corp.example'' \<and>
   generate_patterns no_extended_format ''john'' ''doe'' ''x.com'' [''{last}{''] True
     = Inl UncaughtFormatError"
  by code_simp

text \<open>
  Claim C6 does not hold of the code: the domain is normalised with \<open>rstrip("@")\<close>, which
  removes an \<open>@\<close> at the end and leaves one at the front. For the domain \<open>@x.com\<close> the
  normalised domain is \<open>@x.com\<close> and the addresses hold \<open>@@\<close>.
\<close>

theorem leading_at_kept:
  "norm_domain ''@x.com'' = ''@x.com'' \<and> norm_domain ''x.com@'' = ''x.com'' \<and>
   map_sum id (take 2)
     (generate_patterns no_extended_format ''John'' ''Doe'' ''@x.com'' [] True)
     = Inr [''john.doe@@x.com'', ''john_doe@@x.com'']"
  by code_simp

end
